theory Spec2Isabelle
  imports Main "HOL-Library.Word" "HOL-Library.Char_ord"
begin

unbundle bit_operations_syntax

section \<open>Shared utilities of rrdp.c\<close>

subsection \<open>hex_to_bin\<close>

text \<open>
  A C string is modelled by the list of its characters before the terminating NUL; reading
  one position past the last character yields the NUL byte.  An \<open>unsigned char\<close> is an
  8-bit word.  The ctype predicates are those of the C locale.
\<close>

type_synonym byte = "8 word"

definition isdigit :: "byte \<Rightarrow> bool" where
  "isdigit ch \<longleftrightarrow> 0x30 \<le> ch \<and> ch \<le> 0x39"

definition islower :: "byte \<Rightarrow> bool" where
  "islower ch \<longleftrightarrow> 0x61 \<le> ch \<and> ch \<le> 0x7a"

definition isupper :: "byte \<Rightarrow> bool" where
  "isupper ch \<longleftrightarrow> 0x41 \<le> ch \<and> ch \<le> 0x5a"

text \<open>
  One round of the inner \<open>for\<close> loop of hex_to_bin: \<open>ch\<close> is the byte just read and
  \<open>r\<close> the accumulator.  \<open>None\<close> stands for \<open>return -1\<close>.
\<close>

definition hex_round :: "byte \<Rightarrow> byte \<Rightarrow> byte option" where
  "hex_round r ch0 =
     (if isdigit ch0 then
        (let ch = ch0 - 0x30 in if ch > 0xf then None else Some (push_bit 4 r OR ch))
      else if islower ch0 then
        (let ch = ch0 - (0x61 - 10) in if ch > 0xf then None else Some (push_bit 4 r OR ch))
      else if isupper ch0 then
        (let ch = ch0 - (0x41 - 10) in if ch > 0xf then None else Some (push_bit 4 r OR ch))
      else None)"

text \<open>The byte \<open>hexstr[1]\<close> when \<open>hexstr[0]\<close> is a character and \<open>cs\<close> is what follows it.\<close>

definition second_byte :: "string \<Rightarrow> byte" where
  "second_byte cs = (case cs of [] \<Rightarrow> 0 | c # _ \<Rightarrow> of_char c)"

text \<open>
  The \<open>while (*hexstr)\<close> loop.  The buffer is the list \<open>buf\<close>, whose length is the
  capacity the caller really allocated; \<open>len\<close> is the size the caller passes.  The outer
  \<open>None\<close> is a store outside the buffer, which the C program must never perform.  The
  results are the return code together with the buffer as it was left.
\<close>

fun hex_to_bin_loop :: "string \<Rightarrow> byte list \<Rightarrow> nat \<Rightarrow> nat \<Rightarrow> (int \<times> byte list) option" where
  "hex_to_bin_loop [] buf len pos = Some (0, buf)"
| "hex_to_bin_loop (c # cs) buf len pos =
     (case hex_round 0 (of_char c) of
        None \<Rightarrow> Some (- 1, buf)
      | Some r1 \<Rightarrow>
          (case hex_round r1 (second_byte cs) of
             None \<Rightarrow> Some (- 1, buf)
           | Some r \<Rightarrow>
               if pos < len then
                 (if pos < length buf then hex_to_bin_loop (drop 1 cs) (buf[pos := r]) len (Suc pos)
                  else None)
               else Some (- 1, buf)))"

definition hex_to_bin :: "string \<Rightarrow> byte list \<Rightarrow> nat \<Rightarrow> (int \<times> byte list) option" where
  "hex_to_bin hexstr buf len = hex_to_bin_loop hexstr buf len 0"

text \<open>
  What the result is measured against: the hexadecimal digits and their values, given by a
  table rather than by character arithmetic.
\<close>

definition hex_table :: "(char \<times> nat) list" where
  "hex_table =
     [(CHR ''0'', 0), (CHR ''1'', 1), (CHR ''2'', 2), (CHR ''3'', 3), (CHR ''4'', 4),
      (CHR ''5'', 5), (CHR ''6'', 6), (CHR ''7'', 7), (CHR ''8'', 8), (CHR ''9'', 9),
      (CHR ''a'', 10), (CHR ''b'', 11), (CHR ''c'', 12), (CHR ''d'', 13), (CHR ''e'', 14),
      (CHR ''f'', 15),
      (CHR ''A'', 10), (CHR ''B'', 11), (CHR ''C'', 12), (CHR ''D'', 13), (CHR ''E'', 14),
      (CHR ''F'', 15)]"

definition is_hex :: "char \<Rightarrow> bool" where
  "is_hex c \<longleftrightarrow> c \<in> fst ` set hex_table"

definition hexval :: "char \<Rightarrow> nat" where
  "hexval c = (case map_of hex_table c of Some v \<Rightarrow> v | None \<Rightarrow> 0)"

definition hex_ok :: "string \<Rightarrow> nat \<Rightarrow> bool" where
  "hex_ok hexstr len \<longleftrightarrow>
     even (length hexstr) \<and> list_all is_hex hexstr \<and> length hexstr div 2 \<le> len"

definition pair_val :: "string \<Rightarrow> nat \<Rightarrow> byte" where
  "pair_val s i = of_nat (16 * hexval (s ! (2 * i)) + hexval (s ! (2 * i + 1)))"


section \<open>The notification handler (rrdp_notification.c)\<close>

text \<open>
  \<open>long long\<close> is a 64-bit word and \<open>int\<close> a 32-bit word; comparisons of either are
  signed.  A \<open>char *\<close> that may be NULL is a \<open>string option\<close>.
\<close>

type_synonym llong = "64 word"
type_synonym cint = "32 word"

datatype notification_scope =
    NOTIFICATION_SCOPE_START
  | NOTIFICATION_SCOPE_NOTIFICATION
  | NOTIFICATION_SCOPE_SNAPSHOT
  | NOTIFICATION_SCOPE_NOTIFICATION_POST_SNAPSHOT
  | NOTIFICATION_SCOPE_DELTA
  | NOTIFICATION_SCOPE_END

text \<open>The value of the enumeration constant, for the one ordered comparison in check_state.\<close>

fun scope_num :: "notification_scope \<Rightarrow> nat" where
  "scope_num NOTIFICATION_SCOPE_START = 0"
| "scope_num NOTIFICATION_SCOPE_NOTIFICATION = 1"
| "scope_num NOTIFICATION_SCOPE_SNAPSHOT = 2"
| "scope_num NOTIFICATION_SCOPE_NOTIFICATION_POST_SNAPSHOT = 3"
| "scope_num NOTIFICATION_SCOPE_DELTA = 4"
| "scope_num NOTIFICATION_SCOPE_END = 5"

datatype notification_state =
    NOTIFICATION_STATE_SNAPSHOT
  | NOTIFICATION_STATE_DELTAS
  | NOTIFICATION_STATE_NONE
  | NOTIFICATION_STATE_ERROR

record delta_item =
  d_uri :: string
  d_hash :: string
  d_serial :: llong

text \<open>
  The struct notification_xml.  The TAILQ \<open>delta_q\<close> is the list of its items from head to
  tail.  \<open>parser_stopped\<close> is the one fact about the expat parser behind \<open>parser\<close> that the
  handlers change: whether XML_StopParser has been called on it.
\<close>

record notification_xml =
  parser_stopped :: bool
  session_id :: "string option"
  current_session_id :: "string option"
  snapshot_uri :: "string option"
  snapshot_hash :: "string option"
  delta_q :: "delta_item list"
  serial :: llong
  current_serial :: llong
  version :: cint
  scope :: notification_scope
  state :: notification_state

subsection \<open>add_delta\<close>

text \<open>
  Where the pointer \<open>n\<close> of add_delta ends up: NULL, or the element at an index of the queue.
\<close>

datatype delta_ptr = Null | Elem nat

text \<open>
  The TAILQ_FOREACH of add_delta, started at index \<open>i\<close> of the queue.  \<open>None\<close> is the
  \<open>return 0\<close> on a duplicate; otherwise the value of \<open>n\<close> when the loop is left, by
  \<open>break\<close> or by running off the end.
\<close>

fun add_delta_scan :: "llong \<Rightarrow> delta_item list \<Rightarrow> nat \<Rightarrow> delta_ptr option" where
  "add_delta_scan ser [] i = Some Null"
| "add_delta_scan ser (n # ns) i =
     (if d_serial n = ser then None
      else if d_serial n <s ser then Some (Elem i)
      else add_delta_scan ser ns (Suc i))"

text \<open>add_delta returns its \<open>int\<close> result together with the updated struct.\<close>

definition add_delta :: "notification_xml \<Rightarrow> string \<Rightarrow> string \<Rightarrow> llong \<Rightarrow> int \<times> notification_xml" where
  "add_delta nxml uri dhash ser =
     (let d = \<lparr>d_uri = uri, d_hash = dhash, d_serial = ser\<rparr>;
          q = delta_q nxml;
          n = (if q = [] \<or> ser <s d_serial (last q) then add_delta_scan ser q 0
               else Some (Elem (length q - 1)))
      in case n of
           None \<Rightarrow> (0, nxml)
         | Some (Elem i) \<Rightarrow> (1, nxml\<lparr>delta_q := take (Suc i) q @ d # drop (Suc i) q\<rparr>)
         | Some Null \<Rightarrow> (1, nxml\<lparr>delta_q := d # q\<rparr>))"

subsection \<open>check_state\<close>

text \<open>
  The TAILQ_FOREACH of check_state with the \<open>int\<close> counter \<open>serial_counter\<close>; \<open>None\<close> is
  the early return on a missing delta.  The counter is sign-extended to \<open>long long\<close> for the
  addition.  Where the C arithmetic would overflow, which the language leaves undefined, the
  words wrap around.
\<close>

fun check_state_walk :: "llong \<Rightarrow> cint \<Rightarrow> delta_item list \<Rightarrow> cint option" where
  "check_state_walk cur serial_counter [] = Some serial_counter"
| "check_state_walk cur serial_counter (d # ds) =
     (let serial_counter = serial_counter + 1
      in if cur + scast serial_counter \<noteq> d_serial d then None
         else check_state_walk cur serial_counter ds)"

text \<open>
  \<open>serial_diff\<close> is declared \<open>int\<close>: the 64-bit difference is converted to 32 bits, which
  keeps the low 32 bits.
\<close>

definition check_state :: "notification_xml \<Rightarrow> notification_xml" where
  "check_state nxml =
     (if state nxml = NOTIFICATION_STATE_ERROR \<or> state nxml = NOTIFICATION_STATE_NONE then nxml
      else if current_session_id nxml = None \<or> current_serial nxml = 0 then
        nxml\<lparr>state := NOTIFICATION_STATE_SNAPSHOT\<rparr>
      else if session_id nxml = None \<or> serial nxml = 0 then
        nxml\<lparr>state := NOTIFICATION_STATE_ERROR\<rparr>
      else if current_session_id nxml \<noteq> session_id nxml then
        nxml\<lparr>state := NOTIFICATION_STATE_SNAPSHOT\<rparr>
      else
        (let serial_diff = (ucast (serial nxml - current_serial nxml) :: cint)
         in if serial_diff = 0 then nxml\<lparr>state := NOTIFICATION_STATE_NONE\<rparr>
            else if serial_diff <s 0 then nxml\<lparr>state := NOTIFICATION_STATE_ERROR\<rparr>
            else if scope_num (scope nxml) \<le> scope_num NOTIFICATION_SCOPE_DELTA then nxml
            else
              (case check_state_walk (current_serial nxml) 0 (delta_q nxml) of
                 None \<Rightarrow> nxml\<lparr>state := NOTIFICATION_STATE_SNAPSHOT\<rparr>
               | Some serial_counter \<Rightarrow>
                   if serial_counter \<noteq> serial_diff then nxml\<lparr>state := NOTIFICATION_STATE_SNAPSHOT\<rparr>
                   else nxml\<lparr>state := NOTIFICATION_STATE_DELTAS\<rparr>)))"

subsection \<open>The element handlers\<close>

text \<open>
  strtonum(3) of the C library, as its manual describes it: optional white space, an optional
  sign, then decimal digits and nothing else, with the value required to lie between
  \<open>minval\<close> and \<open>maxval\<close>.  \<open>None\<close> is the case in which \<open>errstr\<close> is set (and 0 is
  returned).
\<close>

definition isspace :: "char \<Rightarrow> bool" where
  "isspace c \<longleftrightarrow> c \<in> set [CHR '' '', CHR 0x09, CHR 0x0A, CHR 0x0B, CHR 0x0C, CHR 0x0D]"

fun digits_val :: "string \<Rightarrow> int \<Rightarrow> int option" where
  "digits_val [] acc = Some acc"
| "digits_val (c # cs) acc =
     (if CHR ''0'' \<le> c \<and> c \<le> CHR ''9'' then digits_val cs (10 * acc + (of_char c - 48))
      else None)"

definition strtonum :: "string \<Rightarrow> int \<Rightarrow> int \<Rightarrow> int option" where
  "strtonum numstr minval maxval =
     (let s = dropWhile isspace numstr;
          neg = (case s of [] \<Rightarrow> False | c # _ \<Rightarrow> c = CHR ''-'');
          ds = (case s of [] \<Rightarrow> [] | c # cs \<Rightarrow> if c = CHR ''-'' \<or> c = CHR ''+'' then cs else s)
      in if ds = [] then None
         else case digits_val ds 0 of
                None \<Rightarrow> None
              | Some v \<Rightarrow>
                  (let ll = (if neg then - v else v)
                   in if ll < minval \<or> maxval < ll then None else Some ll))"

definition LLONG_MAX :: int where
  "LLONG_MAX = 2 ^ 63 - 1"

definition MAX_VERSION :: int where
  "MAX_VERSION = 1"

text \<open>The macro PARSE_FAIL stops the parser; the handler using it returns at once.\<close>

definition PARSE_FAIL :: "notification_xml \<Rightarrow> notification_xml" where
  "PARSE_FAIL nxml = nxml\<lparr>parser_stopped := True\<rparr>"

text \<open>
  The attribute loop of start_notification_elem over the name/value pairs expat hands over.
  \<open>Inl\<close> is a return through PARSE_FAIL, with the struct as the loop left it; \<open>Inr\<close> is the
  normal end of the loop with the flag \<open>has_xmlns\<close>.
\<close>

fun start_notification_attrs ::
  "(string \<times> string) list \<Rightarrow> bool \<Rightarrow> notification_xml \<Rightarrow> notification_xml + bool \<times> notification_xml" where
  "start_notification_attrs [] has_xmlns nxml = Inr (has_xmlns, nxml)"
| "start_notification_attrs ((name, val) # attr) has_xmlns nxml =
     (if name = ''xmlns'' then start_notification_attrs attr True nxml
      else if name = ''session_id'' then
        start_notification_attrs attr has_xmlns (nxml\<lparr>session_id := Some val\<rparr>)
      else if name = ''version'' then
        (case strtonum val 1 MAX_VERSION of
           None \<Rightarrow> Inl (PARSE_FAIL (nxml\<lparr>version := 0\<rparr>))
         | Some v \<Rightarrow> start_notification_attrs attr has_xmlns (nxml\<lparr>version := of_int v\<rparr>))
      else if name = ''serial'' then
        (case strtonum val 1 LLONG_MAX of
           None \<Rightarrow> Inl (PARSE_FAIL (nxml\<lparr>serial := 0\<rparr>))
         | Some v \<Rightarrow> start_notification_attrs attr has_xmlns (nxml\<lparr>serial := of_int v\<rparr>))
      else Inl (PARSE_FAIL nxml))"

definition start_notification_elem :: "notification_xml \<Rightarrow> (string \<times> string) list \<Rightarrow> notification_xml" where
  "start_notification_elem nxml attr =
     (if scope nxml \<noteq> NOTIFICATION_SCOPE_START then PARSE_FAIL nxml
      else case start_notification_attrs attr False nxml of
             Inl nxml' \<Rightarrow> nxml'
           | Inr (has_xmlns, nxml') \<Rightarrow>
               if \<not> (has_xmlns \<and> version nxml' \<noteq> 0 \<and> session_id nxml' \<noteq> None \<and> serial nxml' \<noteq> 0)
               then PARSE_FAIL nxml'
               else (check_state nxml')\<lparr>scope := NOTIFICATION_SCOPE_NOTIFICATION\<rparr>)"

definition end_notification_elem :: "notification_xml \<Rightarrow> notification_xml" where
  "end_notification_elem nxml =
     (if scope nxml \<noteq> NOTIFICATION_SCOPE_NOTIFICATION_POST_SNAPSHOT then PARSE_FAIL nxml
      else check_state (nxml\<lparr>scope := NOTIFICATION_SCOPE_END\<rparr>))"

fun start_snapshot_attrs :: "(string \<times> string) list \<Rightarrow> notification_xml \<Rightarrow> notification_xml + notification_xml" where
  "start_snapshot_attrs [] nxml = Inr nxml"
| "start_snapshot_attrs ((name, val) # attr) nxml =
     (if name = ''uri'' then start_snapshot_attrs attr (nxml\<lparr>snapshot_uri := Some val\<rparr>)
      else if name = ''hash'' then start_snapshot_attrs attr (nxml\<lparr>snapshot_hash := Some val\<rparr>)
      else Inl (PARSE_FAIL nxml))"

definition start_snapshot_elem :: "notification_xml \<Rightarrow> (string \<times> string) list \<Rightarrow> notification_xml" where
  "start_snapshot_elem nxml attr =
     (if scope nxml \<noteq> NOTIFICATION_SCOPE_NOTIFICATION then PARSE_FAIL nxml
      else case start_snapshot_attrs attr nxml of
             Inl nxml' \<Rightarrow> nxml'
           | Inr nxml' \<Rightarrow>
               if snapshot_uri nxml' = None \<or> snapshot_hash nxml' = None then PARSE_FAIL nxml'
               else nxml'\<lparr>scope := NOTIFICATION_SCOPE_SNAPSHOT\<rparr>)"

definition end_snapshot_elem :: "notification_xml \<Rightarrow> notification_xml" where
  "end_snapshot_elem nxml =
     (if scope nxml \<noteq> NOTIFICATION_SCOPE_SNAPSHOT then PARSE_FAIL nxml
      else nxml\<lparr>scope := NOTIFICATION_SCOPE_NOTIFICATION_POST_SNAPSHOT\<rparr>)"

text \<open>
  The attribute loop of start_delta_elem over its locals \<open>delta_uri\<close>, \<open>delta_hash\<close> and
  \<open>delta_serial\<close>; \<open>None\<close> is a return through PARSE_FAIL.
\<close>

fun start_delta_attrs ::
  "(string \<times> string) list \<Rightarrow> string option \<Rightarrow> string option \<Rightarrow> llong \<Rightarrow>
     (string option \<times> string option \<times> llong) option" where
  "start_delta_attrs [] delta_uri delta_hash delta_serial = Some (delta_uri, delta_hash, delta_serial)"
| "start_delta_attrs ((name, val) # attr) delta_uri delta_hash delta_serial =
     (if name = ''uri'' then start_delta_attrs attr (Some val) delta_hash delta_serial
      else if name = ''hash'' then start_delta_attrs attr delta_uri (Some val) delta_serial
      else if name = ''serial'' then
        (case strtonum val 1 LLONG_MAX of
           None \<Rightarrow> None
         | Some v \<Rightarrow> start_delta_attrs attr delta_uri delta_hash (of_int v))
      else None)"

definition start_delta_elem :: "notification_xml \<Rightarrow> (string \<times> string) list \<Rightarrow> notification_xml" where
  "start_delta_elem nxml attr =
     (if scope nxml \<noteq> NOTIFICATION_SCOPE_NOTIFICATION_POST_SNAPSHOT then PARSE_FAIL nxml
      else case start_delta_attrs attr None None 0 of
             None \<Rightarrow> PARSE_FAIL nxml
           | Some (None, _, _) \<Rightarrow> PARSE_FAIL nxml
           | Some (Some _, None, _) \<Rightarrow> PARSE_FAIL nxml
           | Some (Some delta_uri, Some delta_hash, delta_serial) \<Rightarrow>
               if delta_serial = 0 then PARSE_FAIL nxml
               else if current_serial nxml \<noteq> 0 \<and> current_serial nxml <s delta_serial then
                 (case add_delta nxml delta_uri delta_hash delta_serial of
                    (r, nxml') \<Rightarrow>
                      if r = 0 then PARSE_FAIL nxml'
                      else nxml'\<lparr>scope := NOTIFICATION_SCOPE_DELTA\<rparr>)
               else nxml\<lparr>scope := NOTIFICATION_SCOPE_DELTA\<rparr>)"

definition end_delta_elem :: "notification_xml \<Rightarrow> notification_xml" where
  "end_delta_elem nxml =
     (if scope nxml \<noteq> NOTIFICATION_SCOPE_DELTA then PARSE_FAIL nxml
      else nxml\<lparr>scope := NOTIFICATION_SCOPE_NOTIFICATION_POST_SNAPSHOT\<rparr>)"

definition notification_xml_elem_start ::
  "notification_xml \<Rightarrow> string \<Rightarrow> (string \<times> string) list \<Rightarrow> notification_xml" where
  "notification_xml_elem_start nxml el attr =
     (if el = ''notification'' then start_notification_elem nxml attr
      else if el = ''snapshot'' then start_snapshot_elem nxml attr
      else if el = ''delta'' then start_delta_elem nxml attr
      else PARSE_FAIL nxml)"

definition notification_xml_elem_end :: "notification_xml \<Rightarrow> string \<Rightarrow> notification_xml" where
  "notification_xml_elem_end nxml el =
     (if el = ''notification'' then end_notification_elem nxml
      else if el = ''snapshot'' then end_snapshot_elem nxml
      else if el = ''delta'' then end_delta_elem nxml
      else PARSE_FAIL nxml)"

text \<open>new_notification_xml: the struct as calloc leaves it, with an empty queue.\<close>

definition new_notification_xml :: notification_xml where
  "new_notification_xml =
     \<lparr>parser_stopped = False, session_id = None, current_session_id = None,
      snapshot_uri = None, snapshot_hash = None, delta_q = [], serial = 0, current_serial = 0,
      version = 0, scope = NOTIFICATION_SCOPE_START, state = NOTIFICATION_STATE_SNAPSHOT\<rparr>"

text \<open>
  What expat does with the two handlers registered by new_notification_xml: it calls them for
  the tags of the document in order, and no more once the parser is stopped.  An
  empty-element tag is one event for expat, which calls the start handler and then the end
  handler for it, the latter also when the former has stopped the parser.
\<close>

datatype xml_event =
    Elem_start string "(string \<times> string) list"
  | Elem_end string
  | Elem_empty string "(string \<times> string) list"

fun notification_parse :: "xml_event list \<Rightarrow> notification_xml \<Rightarrow> notification_xml" where
  "notification_parse [] nxml = nxml"
| "notification_parse (e # es) nxml =
     (if parser_stopped nxml then nxml
      else notification_parse es
             (case e of
                Elem_start el attr \<Rightarrow> notification_xml_elem_start nxml el attr
              | Elem_end el \<Rightarrow> notification_xml_elem_end nxml el
              | Elem_empty el attr \<Rightarrow>
                  notification_xml_elem_end (notification_xml_elem_start nxml el attr) el))"

text \<open>
  A \<open><delta>\<close> element of a notification document, and a whole document with the given
  session id and serial, a snapshot element and the given deltas in the order presented.
\<close>

definition delta_elem :: "string \<Rightarrow> xml_event list" where
  "delta_elem ser =
     [Elem_start ''delta'' [(''serial'', ser), (''uri'', ''https://rrdp.example/d.xml''),
        (''hash'', ''00'')],
      Elem_end ''delta'']"

definition notification_doc :: "string \<Rightarrow> string \<Rightarrow> string list \<Rightarrow> xml_event list" where
  "notification_doc sid ser deltas =
     [Elem_start ''notification''
        [(''xmlns'', ''http://www.ripe.net/rpki/rrdp''), (''version'', ''1''),
         (''session_id'', sid), (''serial'', ser)],
      Elem_start ''snapshot'' [(''uri'', ''https://rrdp.example/s.xml''), (''hash'', ''00'')],
      Elem_end ''snapshot'']
     @ concat (map delta_elem deltas)
     @ [Elem_end ''notification'']"

text \<open>
  The reference the plan is compared with, written from the specification of check_state over
  unbounded integers: the prior session id (absent when there is no prior state) and serial,
  the session id and serial of the notification, and the serials of the delta list in list
  order.
\<close>

definition plan_spec :: "string option \<Rightarrow> int \<Rightarrow> string \<Rightarrow> int \<Rightarrow> int list \<Rightarrow> notification_state" where
  "plan_spec repo_session repo_serial sid ser deltas =
     (if repo_session = None \<or> repo_serial = 0 then NOTIFICATION_STATE_SNAPSHOT
      else if repo_session \<noteq> Some sid then NOTIFICATION_STATE_SNAPSHOT
      else if ser - repo_serial = 0 then NOTIFICATION_STATE_NONE
      else if ser - repo_serial < 0 then NOTIFICATION_STATE_ERROR
      else if deltas = [repo_serial + 1 .. ser] then NOTIFICATION_STATE_DELTAS
      else NOTIFICATION_STATE_SNAPSHOT)"


section \<open>The session engine (rrdp.c)\<close>

datatype rrdp_state = REQ | WAITING | PARSING | PARSED | ERROR | DONE

text \<open>
  The enum rrdp_task is declared in rrdp.h, which is not among the sources; its three values
  are the ones rrdp.c switches over.
\<close>

datatype rrdp_task = NOTIFICATION | SNAPSHOT | DELTA

record rrdp_session =
  rs_session_id :: "string option"
  rs_serial :: llong
  last_mod :: "string option"

text \<open>
  The pointers \<open>nxml\<close>, \<open>sxml\<close> and \<open>dxml\<close> of a session: NULL, pointing to a live handler
  structure, or left pointing to one that has been freed.
\<close>

datatype xml_ptr = NullPtr | Allocated | Freed

text \<open>
  How the worker can end other than by returning: the exit through errx with its message, and
  the release of memory that has been released before, after which the C program has no
  defined behaviour.
\<close>

datatype fatal = Errx string | Double_free

text \<open>
  free_notification_xml, free_snapshot_xml and free_delta_xml, seen from the pointer that is
  passed to them: NULL is accepted, a live structure is released and the pointer the caller
  holds is left pointing to it, a pointer to a released structure is released once more.
\<close>

fun free_xml :: "xml_ptr \<Rightarrow> fatal + xml_ptr" where
  "free_xml NullPtr = Inr NullPtr"
| "free_xml Allocated = Inr Freed"
| "free_xml Freed = Inl Double_free"

text \<open>
  The struct rrdp.  \<open>id\<close> and \<open>state\<close> are renamed \<open>r_id\<close> and \<open>r_state\<close>, \<open>local\<close> is
  \<open>r_local\<close>.  \<open>file_pending\<close> and \<open>file_failed\<close> are \<open>unsigned int\<close>.  The SHA256_CTX
  \<open>ctx\<close> is represented by the bytes it has been updated with since SHA256_Init.
\<close>

record rrdp =
  r_id :: nat
  notifyuri :: "string option"
  r_local :: "string option"
  infd :: int
  r_state :: rrdp_state
  task :: rrdp_task
  status :: int
  file_pending :: "32 word"
  file_failed :: "32 word"
  hash :: "byte list"
  ctx :: "byte list"
  repository :: rrdp_session
  current :: rrdp_session
  nxml :: xml_ptr
  sxml :: xml_ptr
  dxml :: xml_ptr

text \<open>The messages the worker queues on \<open>msgq\<close> for the parent, with the fields written.\<close>

text \<open>
  The enum publish_type is declared in rrdp.h as well; the specification names its values
  ADD, UPDATE and WITHDRAW.
\<close>

datatype publish_type = PUB_ADD | PUB_UPDATE | PUB_WITHDRAW

record publish_xml =
  p_uri :: "string option"
  p_data :: string
  p_hash :: "byte list"
  data_length :: int
  p_type :: publish_type

datatype out_msg =
    Msg_END nat int
  | Msg_HTTP_REQ nat "string option" "string option"
  | Msg_SESSION nat "string option" llong "string option"
  | Msg_FILE nat publish_type "byte list option" "string option" "byte list"

definition rrdp_done :: "nat \<Rightarrow> int \<Rightarrow> out_msg" where
  "rrdp_done ident ok = Msg_END ident ok"

definition rrdp_fetch :: "nat \<Rightarrow> string option \<Rightarrow> string option \<Rightarrow> out_msg" where
  "rrdp_fetch ident uri lm = Msg_HTTP_REQ ident uri lm"

definition rrdp_state_send :: "rrdp \<Rightarrow> out_msg" where
  "rrdp_state_send s =
     Msg_SESSION (r_id s) (rs_session_id (current s)) (rs_serial (current s)) (last_mod (current s))"

text \<open>
  rrdp_new: the struct as calloc leaves it apart from the fields assigned.  The zero value of
  the task is taken to be NOTIFICATION, the first phase of every session.
\<close>

definition rrdp_new ::
  "nat \<Rightarrow> string option \<Rightarrow> string option \<Rightarrow> string option \<Rightarrow> llong \<Rightarrow> string option \<Rightarrow> rrdp" where
  "rrdp_new ident loc notify sess ser lm =
     \<lparr>r_id = ident, notifyuri = notify, r_local = loc, infd = - 1, r_state = REQ,
      task = NOTIFICATION, status = 0, file_pending = 0, file_failed = 0, hash = replicate 32 0,
      ctx = [],
      repository = \<lparr>rs_session_id = sess, rs_serial = ser, last_mod = lm\<rparr>,
      current = \<lparr>rs_session_id = None, rs_serial = 0, last_mod = None\<rparr>,
      nxml = Allocated, sxml = NullPtr, dxml = NullPtr\<rparr>"

text \<open>
  Operations on one session return what has become of it (\<open>None\<close> once rrdp_free has
  released it and taken it off the list \<open>states\<close>) and the messages they have queued.
\<close>

text \<open>
  rrdp_free passes the three handler pointers to their free functions, in the order \<open>nxml\<close>,
  \<open>sxml\<close>, \<open>dxml\<close>, before it releases the session itself.
\<close>

definition rrdp_free :: "rrdp \<Rightarrow> fatal + unit" where
  "rrdp_free s =
     (case free_xml (nxml s) of
        Inl f \<Rightarrow> Inl f
      | Inr _ \<Rightarrow>
          (case free_xml (sxml s) of
             Inl f \<Rightarrow> Inl f
           | Inr _ \<Rightarrow>
               (case free_xml (dxml s) of
                  Inl f \<Rightarrow> Inl f
                | Inr _ \<Rightarrow> Inr ())))"

text \<open>
  rrdp_failed.  In the DELTA branch \<open>s->dxml\<close> is freed and not assigned afterwards.  In the
  other branch rrdp_free comes before rrdp_done.
\<close>

definition rrdp_failed :: "rrdp \<Rightarrow> fatal + rrdp option \<times> out_msg list" where
  "rrdp_failed s =
     (if task s = DELTA then
        (case free_xml (dxml s) of
           Inl f \<Rightarrow> Inl f
         | Inr p \<Rightarrow>
             Inr (Some (s\<lparr>dxml := p, sxml := Allocated, task := SNAPSHOT, r_state := REQ\<rparr>), []))
      else
        (case rrdp_free s of
           Inl f \<Rightarrow> Inl f
         | Inr _ \<Rightarrow> Inr (None, [rrdp_done (r_id s) 0])))"

text \<open>
  What rrdp.c calls but does not define, and what it learns from there: whether the final
  XML_Parse call succeeds, the task notification_done returns and the contents of
  \<open>s->current\<close> at that point (the handlers fill it through the pointer they were given),
  and the result of notification_delta_done.
\<close>

record env =
  xml_final_ok :: bool
  nd_task :: rrdp_task
  nd_current :: rrdp_session
  notification_delta_done :: bool

text \<open>The code from the label \<open>done\<close> of rrdp_input_handler to the end of its case.\<close>

text \<open>
  The sequence rrdp_state_send, rrdp_free, rrdp_done with ok=1 that ends a session whose
  cache is up to date.
\<close>

definition rrdp_success :: "rrdp \<Rightarrow> fatal + rrdp option \<times> out_msg list" where
  "rrdp_success s =
     (case rrdp_free s of
        Inl f \<Rightarrow> Inl f
      | Inr _ \<Rightarrow> Inr (None, [rrdp_state_send s, rrdp_done (r_id s) 1]))"

definition rrdp_finish :: "env \<Rightarrow> rrdp \<Rightarrow> fatal + rrdp option \<times> out_msg list" where
  "rrdp_finish e s =
     (if status s = 200 then
        (if \<not> xml_final_ok e then rrdp_failed s
         else if file_failed s > 0 then rrdp_failed s
         else
           (case task s of
              NOTIFICATION \<Rightarrow>
                (let s = s\<lparr>task := nd_task e, current := nd_current e\<rparr>
                 in case task s of
                      NOTIFICATION \<Rightarrow> rrdp_success s
                    | SNAPSHOT \<Rightarrow> Inr (Some (s\<lparr>sxml := Allocated, r_state := REQ\<rparr>), [])
                    | DELTA \<Rightarrow> Inr (Some (s\<lparr>dxml := Allocated, r_state := REQ\<rparr>), []))
            | SNAPSHOT \<Rightarrow> rrdp_success s
            | DELTA \<Rightarrow>
                if notification_delta_done e then rrdp_success s
                else
                  (case free_xml (dxml s) of
                     Inl f \<Rightarrow> Inl f
                   | Inr _ \<Rightarrow> Inr (Some (s\<lparr>dxml := Allocated, r_state := REQ\<rparr>), []))))
      else if status s = 304 \<and> task s = NOTIFICATION then
        (case rrdp_free s of
           Inl f \<Rightarrow> Inl f
         | Inr _ \<Rightarrow> Inr (None, [rrdp_done (r_id s) 1]))
      else rrdp_failed s)"

text \<open>The worker: the list \<open>states\<close> of live sessions and the queue of outgoing messages.\<close>

record worker =
  states :: "rrdp list"
  msgq :: "out_msg list"

text \<open>rrdp_get: the first session with the given id, as its position in the list.\<close>

fun rrdp_get :: "rrdp list \<Rightarrow> nat \<Rightarrow> nat option" where
  "rrdp_get [] ident = None"
| "rrdp_get (s # ss) ident =
     (if r_id s = ident then Some 0 else map_option Suc (rrdp_get ss ident))"

text \<open>
  Writing the outcome of an operation on the session at position \<open>i\<close> back to the worker.
\<close>

definition commit :: "worker \<Rightarrow> nat \<Rightarrow> rrdp option \<times> out_msg list \<Rightarrow> worker" where
  "commit w i r =
     \<lparr>states = (case fst r of
                  None \<Rightarrow> take i (states w) @ drop (Suc i) (states w)
                | Some s \<Rightarrow> (states w)[i := s]),
      msgq = msgq w @ snd r\<rparr>"

definition commit_outcome ::
  "worker \<Rightarrow> nat \<Rightarrow> fatal + rrdp option \<times> out_msg list \<Rightarrow> fatal + worker" where
  "commit_outcome w i r = (case r of Inl f \<Rightarrow> Inl f | Inr x \<Rightarrow> Inr (commit w i x))"

text \<open>
  A message from the parent as rrdp_input_handler reads it: the descriptor passed along
  (-1 when there is none), the session id, and the fields that depend on the type.
\<close>

datatype in_body =
    RRDP_START "string option" "string option" "string option" llong "string option"
  | RRDP_HTTP_INI
  | RRDP_HTTP_FIN int "string option"
  | RRDP_FILE int
  | RRDP_OTHER

text \<open>
  rrdp_input_handler.  \<open>Inl\<close> is a fatal end of the worker.  The flag \<open>NOTYET\<close>
  tells whether the preprocessor symbol of that name is defined; nothing in the sources
  defines it.
\<close>

definition rrdp_input_handler ::
  "bool \<Rightarrow> env \<Rightarrow> worker \<Rightarrow> int \<Rightarrow> nat \<Rightarrow> in_body \<Rightarrow> fatal + worker" where
  "rrdp_input_handler NOTYET e w fd ident body =
     (case body of
        RRDP_START loc notify sess ser lm \<Rightarrow>
          if fd \<noteq> - 1 then Inl (Errx ''received unexpected fd'')
          else Inr (w\<lparr>states := states w @ [rrdp_new ident loc notify sess ser lm]\<rparr>)
      | RRDP_HTTP_INI \<Rightarrow>
          if fd = - 1 then Inl (Errx ''expected fd not received'')
          else
            (case rrdp_get (states w) ident of
               None \<Rightarrow> Inl (Errx ''rrdp session does not exist'')
             | Some i \<Rightarrow>
                 (let s = states w ! i
                  in if r_state s \<noteq> WAITING then Inl (Errx ''bad internal state'')
                     else Inr (commit w i (Some (s\<lparr>infd := fd, r_state := PARSING\<rparr>), []))))
      | RRDP_HTTP_FIN st lm \<Rightarrow>
          if fd \<noteq> - 1 then Inl (Errx ''received unexpected fd'')
          else
            (case rrdp_get (states w) ident of
               None \<Rightarrow> Inl (Errx ''rrdp session does not exist'')
             | Some i \<Rightarrow>
                 (let s = states w ! i
                  in if r_state s = ERROR then commit_outcome w i (rrdp_failed s)
                     else if r_state s \<noteq> PARSED then Inl (Errx ''bad internal state'')
                     else
                       (let s = s\<lparr>status := st, r_state := DONE\<rparr>
                        in if NOTYET \<and> file_pending s > 0 then Inr (commit w i (Some s, []))
                           else commit_outcome w i (rrdp_finish e s))))
      | RRDP_FILE st \<Rightarrow>
          (case rrdp_get (states w) ident of
             None \<Rightarrow> Inl (Errx ''rrdp session does not exist'')
           | Some i \<Rightarrow>
               (let s = states w ! i;
                    s = (if st = 0 then s\<lparr>file_failed := file_failed s + 1\<rparr> else s);
                    s = s\<lparr>file_pending := file_pending s - 1\<rparr>
                in if file_pending s = 0 \<and> r_state s = DONE then commit_outcome w i (rrdp_finish e s)
                   else Inr (commit w i (Some s, []))))
      | RRDP_OTHER \<Rightarrow> Inl (Errx ''unexpected message''))"

text \<open>
  publish_done, with the result and the session as it leaves it.  base64_decode is not among
  the sources and is a parameter; \<open>None\<close> is its failure.
\<close>

definition publish_done ::
  "(string \<Rightarrow> byte list option) \<Rightarrow> rrdp \<Rightarrow> publish_xml \<Rightarrow> int \<times> rrdp \<times> out_msg list" where
  "publish_done base64_decode s pxml =
     (case (if data_length pxml > 0 then base64_decode (p_data pxml) else Some []) of
        None \<Rightarrow> (- 1, s, [])
      | Some data \<Rightarrow>
          (0, s\<lparr>file_pending := file_pending s + 1\<rparr>,
           [Msg_FILE (r_id s) (p_type pxml)
              (if p_type pxml \<noteq> PUB_ADD then Some (p_hash pxml) else None) (p_uri pxml) data]))"

subsection \<open>The scheduler loop of proc_rrdp, one session at a time\<close>

text \<open>
  The body of the first loop for one session.  \<open>i\<close> is the loop's count of poll slots.
  Once it has reached MAX_SESSIONS + 1 the session is passed over: it gets no slot (its
  \<open>pfd\<close> is NULL and the last loop skips it) and issues no request.  Otherwise a session in
  state REQ issues its request, and the session takes slot \<open>i\<close>.  The result is the session,
  the messages queued and the count for the next session.  notification_get_next is not
  among the sources; it is a parameter giving, for the task, the URI to fetch and the
  expected digest it stores in \<open>s->hash\<close>.
\<close>

definition MAX_SESSIONS :: nat where
  "MAX_SESSIONS = 12"

definition rrdp_request ::
  "(rrdp_task \<Rightarrow> string option \<times> byte list) \<Rightarrow> nat \<Rightarrow> rrdp \<Rightarrow> rrdp \<times> out_msg list \<times> nat" where
  "rrdp_request notification_get_next i s =
     (if i \<ge> MAX_SESSIONS + 1 then (s, [], i)
      else if r_state s = REQ then
        (case task s of
           NOTIFICATION \<Rightarrow>
             (s\<lparr>r_state := WAITING\<rparr>,
              [rrdp_fetch (r_id s) (notifyuri s) (last_mod (repository s))], Suc i)
         | _ \<Rightarrow>
             (let (uri, h) = notification_get_next (task s)
              in (s\<lparr>hash := h, ctx := [], r_state := WAITING\<rparr>,
                  [rrdp_fetch (r_id s) uri None], Suc i)))
      else (s, [], Suc i))"

text \<open>The first loop over the list of sessions; proc_rrdp starts it with \<open>i = 1\<close>.\<close>

fun proc_rrdp_requests ::
  "(rrdp_task \<Rightarrow> string option \<times> byte list) \<Rightarrow> nat \<Rightarrow> rrdp list \<Rightarrow> rrdp list \<times> out_msg list" where
  "proc_rrdp_requests notification_get_next i [] = ([], [])"
| "proc_rrdp_requests notification_get_next i (s # ss) =
     (case rrdp_request notification_get_next i s of
        (s', ms, i') \<Rightarrow>
          (case proc_rrdp_requests notification_get_next i' ss of
             (ss', ms') \<Rightarrow> (s' # ss', ms @ ms')))"

text \<open>
  What poll and read report for one session in one iteration of the last loop: nothing to
  read (the session has no poll slot, or poll does not report input), a read error, end of
  file, or a non-empty block of bytes together with the answer XML_Parse gives if the block
  is passed to it.
\<close>

datatype poll_event = No_input | Read_error | Read_eof | Read_data "byte list" bool

text \<open>
  The body of the last loop for one session.  \<open>sha256\<close> is the digest function of OpenSSL:
  SHA256_Final yields \<open>sha256\<close> of the bytes the context was updated with.
\<close>

definition rrdp_data_handler ::
  "(byte list \<Rightarrow> byte list) \<Rightarrow> rrdp \<Rightarrow> poll_event \<Rightarrow> fatal + rrdp option \<times> out_msg list" where
  "rrdp_data_handler sha256 s ev =
     (case ev of
        No_input \<Rightarrow> Inr (Some s, [])
      | Read_error \<Rightarrow> rrdp_failed s
      | Read_eof \<Rightarrow>
          if r_state s \<noteq> PARSING \<and> r_state s \<noteq> ERROR then Inl (Errx ''bad parser state'')
          else
            (let s = s\<lparr>infd := - 1\<rparr>
             in if task s \<noteq> NOTIFICATION \<and> hash s \<noteq> sha256 (ctx s) then rrdp_failed s
                else Inr (Some (if r_state s = PARSING then s\<lparr>r_state := PARSED\<rparr> else s), []))
      | Read_data buf parse_ok \<Rightarrow>
          if r_state s \<noteq> PARSING \<and> r_state s \<noteq> ERROR then Inl (Errx ''bad parser state'')
          else
            (let s = (if task s \<noteq> NOTIFICATION then s\<lparr>ctx := ctx s @ buf\<rparr> else s)
             in Inr (Some (if r_state s = PARSING \<and> \<not> parse_ok then s\<lparr>r_state := ERROR\<rparr> else s), [])))"

text \<open>
  The successive events of one session's stream over the iterations of the loop, for as long
  as the session lives.
\<close>

fun rrdp_read_stream ::
  "(byte list \<Rightarrow> byte list) \<Rightarrow> rrdp \<Rightarrow> poll_event list \<Rightarrow> fatal + rrdp option \<times> out_msg list" where
  "rrdp_read_stream sha256 s [] = Inr (Some s, [])"
| "rrdp_read_stream sha256 s (ev # evs) =
     (case rrdp_data_handler sha256 s ev of
        Inl f \<Rightarrow> Inl f
      | Inr (None, ms) \<Rightarrow> Inr (None, ms)
      | Inr (Some s', ms) \<Rightarrow>
          (case rrdp_read_stream sha256 s' evs of
             Inl f \<Rightarrow> Inl f
           | Inr (r, ms') \<Rightarrow> Inr (r, ms @ ms')))"


text \<open>
  The handler pointers as the worker leaves them: \<open>nxml\<close> and \<open>sxml\<close> never point to
  released memory, and \<open>dxml\<close> does so only after the fallback of rrdp_failed, which sets the
  task to SNAPSHOT for the rest of the session.
\<close>

definition handlers_ok :: "rrdp \<Rightarrow> bool" where
  "handlers_ok s \<longleftrightarrow> nxml s \<noteq> Freed \<and> sxml s \<noteq> Freed \<and> (task s = SNAPSHOT \<or> dxml s \<noteq> Freed)"

section \<open>Concrete inputs\<close>

text \<open>
  Modelled from the spec: the notification struct of a session that has prior repository
  state.  The new_notification_xml that rrdp.c calls with the session's repository is not
  among the sources (the one in rrdp_notification.c takes the parser only and leaves
  \<open>current_session_id\<close> and \<open>current_serial\<close> zero); per the specification the prior
  session id and serial are what check_state compares the notification with.
\<close>

definition prior_state :: "string option \<Rightarrow> llong \<Rightarrow> notification_xml" where
  "prior_state sess ser = new_notification_xml\<lparr>current_session_id := sess, current_serial := ser\<rparr>"

definition example_env :: env where
  "example_env =
     \<lparr>xml_final_ok = True, nd_task = NOTIFICATION,
      nd_current = \<lparr>rs_session_id = Some ''A'', rs_serial = 12, last_mod = None\<rparr>,
      notification_delta_done = True\<rparr>"

text \<open>A session with the given id, phase, task and number of unacknowledged files.\<close>

definition example_session :: "nat \<Rightarrow> rrdp_state \<Rightarrow> rrdp_task \<Rightarrow> 32 word \<Rightarrow> rrdp" where
  "example_session ident st t pending =
     (rrdp_new ident (Some ''cache'') (Some ''https://rrdp.example/notify.xml'') (Some ''A'') 10 None)
       \<lparr>r_state := st, task := t, file_pending := pending,
        current := \<lparr>rs_session_id = Some ''A'', rs_serial = 12, last_mod = None\<rparr>\<rparr>"


section \<open>Properties of hex_to_bin\<close>

lemma is_hex_cases:
  assumes "is_hex c"
  shows "c \<in> {CHR ''0'', CHR ''1'', CHR ''2'', CHR ''3'', CHR ''4'', CHR ''5'', CHR ''6'', CHR ''7'', CHR ''8'',
      CHR ''9'', CHR ''a'', CHR ''b'', CHR ''c'', CHR ''d'', CHR ''e'', CHR ''f'', CHR ''A'', CHR ''B'',
      CHR ''C'', CHR ''D'', CHR ''E'', CHR ''F''}"
  using assms unfolding is_hex_def hex_table_def by (simp only: list.map fst_conv set_simps image_insert image_empty)

lemma hexval_less: "hexval c < 16"
  by (cases "is_hex c") (auto dest!: is_hex_cases simp: hexval_def hex_table_def is_hex_def split: option.splits if_splits)

lemma hex_round_NUL: "hex_round r 0 = None"
  by (simp add: hex_round_def isdigit_def islower_def isupper_def)

lemma hex_round_hex:
  assumes "is_hex c"
  shows "hex_round r (of_char c) = Some (push_bit 4 r OR of_nat (hexval c))"
  using is_hex_cases [OF assms]
  by (elim insertE emptyE; simp add: hex_round_def isdigit_def islower_def isupper_def hexval_def hex_table_def)

lemma of_char_byte: "(of_char c :: byte) = of_nat (of_char c)"
  by (simp add: of_char_def) 

lemma hex_round_Some_range:
  assumes "hex_round r (of_char c) = Some v"
  shows "(of_char c :: nat) \<in> {48..57} \<union> {97..102} \<union> {65..70}"
proof -
  define n :: nat where "n = of_char c"
  have n: "n < 256" unfolding n_def by simp
  have b: "(of_char c :: byte) = of_nat n" unfolding n_def by (simp add: of_char_byte)
  have "n \<in> {48..57} \<union> {97..102} \<union> {65..70}"
    using assms n unfolding b hex_round_def isdigit_def islower_def isupper_def Let_def
    by (auto split: if_splits simp: word_le_nat_alt word_less_nat_alt unat_sub unat_of_nat)
  then show ?thesis by (simp add: n_def)
qed

lemma range_enum:
  fixes n :: nat
  assumes "n \<in> {48..57} \<union> {97..102} \<union> {65..70}"
  shows "n \<in> {48, 49, 50, 51, 52, 53, 54, 55, 56, 57, 97, 98, 99, 100, 101, 102, 65, 66, 67, 68, 69, 70}"
  using assms by (simp only: Un_iff atLeastAtMost_iff insert_iff empty_iff) arith

lemma range_is_hex:
  assumes "(of_char c :: nat) \<in> {48..57} \<union> {97..102} \<union> {65..70}"
  shows "is_hex c"
proof -
  define n :: nat where "n = of_char c"
  have c: "c = char_of n" unfolding n_def by simp
  from assms have "n \<in> {48..57} \<union> {97..102} \<union> {65..70}" by (simp only: n_def)
  from range_enum [OF this] show ?thesis unfolding c
    by (elim insertE emptyE; simp add: is_hex_def hex_table_def char_of_def bit_0)
qed

lemma hex_round_not_hex: "\<not> is_hex c \<Longrightarrow> hex_round r (of_char c) = None"
  using hex_round_Some_range range_is_hex by (cases "hex_round r (of_char c)") blast+

lemma nibble_enum:
  fixes a :: nat
  assumes "a < 16"
  shows "a \<in> {0, 1, 2, 3, 4, 5, 6, 7, 8, 9, 10, 11, 12, 13, 14, 15}"
  using assms by (simp only: insert_iff empty_iff) arith

lemma nibbles:
  fixes a b :: nat
  assumes "a < 16" "b < 16"
  shows "push_bit 4 (of_nat a) OR of_nat b = 16 * of_nat a + (of_nat b :: byte)"
  using nibble_enum [OF assms(1)] nibble_enum [OF assms(2)]
  by (elim insertE emptyE; simp)

lemma hex_first:
  assumes "is_hex c1"
  shows "hex_round 0 (of_char c1) = Some (of_nat (hexval c1))"
  using assms by (simp add: hex_round_hex)

lemma hex_second:
  assumes "is_hex c2"
  shows "hex_round (of_nat (hexval c1)) (of_char c2) = Some (pair_val (c1 # c2 # cs) 0)"
  using assms by (simp add: hex_round_hex pair_val_def nibbles hexval_less)

lemma pair_val_Suc: "pair_val (c1 # c2 # cs) (Suc i) = pair_val cs i"
  by (simp add: pair_val_def)

lemma hex_loop_step:
  assumes "is_hex c1" "is_hex c2" "pos < len" "pos < length buf"
  shows "hex_to_bin_loop (c1 # c2 # cs) buf len pos =
         hex_to_bin_loop cs (buf[pos := pair_val (c1 # c2 # cs) 0]) len (Suc pos)"
  using assms hex_second [of c2 c1 cs] by (simp add: second_byte_def hex_first)

lemma hex_loop_fail_first: "\<not> is_hex c \<Longrightarrow> hex_to_bin_loop (c # cs) buf len pos = Some (- 1, buf)"
  by (simp add: hex_round_not_hex)

lemma hex_loop_fail_odd: "hex_to_bin_loop [c] buf len pos = Some (- 1, buf)"
  by (simp add: second_byte_def hex_round_NUL split: option.splits)

lemma hex_loop_fail_second: "\<not> is_hex c2 \<Longrightarrow> hex_to_bin_loop (c1 # c2 # cs) buf len pos = Some (- 1, buf)"
  by (simp add: second_byte_def hex_round_not_hex split: option.splits)

lemma hex_loop_fail_full:
  "\<not> pos < len \<Longrightarrow> is_hex c1 \<Longrightarrow> is_hex c2 \<Longrightarrow> hex_to_bin_loop (c1 # c2 # cs) buf len pos = Some (- 1, buf)"
  using hex_second [of c2 c1 cs] by (simp add: second_byte_def hex_first)


lemma hex_to_bin_loop_general:
  assumes "len \<le> length buf" "pos \<le> len"
  shows "\<exists>buf'. hex_to_bin_loop s buf len pos =
           Some (if even (length s) \<and> list_all is_hex s \<and> pos + length s div 2 \<le> len then 0 else - 1, buf')
         \<and> length buf' = length buf
         \<and> (\<forall>j. j < pos \<or> len \<le> j \<longrightarrow> buf' ! j = buf ! j)
         \<and> (even (length s) \<and> list_all is_hex s \<and> pos + length s div 2 \<le> len \<longrightarrow>
              (\<forall>i < length s div 2. buf' ! (pos + i) = pair_val s i)
            \<and> (\<forall>j \<ge> pos + length s div 2. buf' ! j = buf ! j))"
  using assms
proof (induction s arbitrary: buf pos rule: induct_list012)
  case 1
  then show ?case by simp
next
  case (2 c)
  then show ?case by (simp add: hex_loop_fail_odd del: hex_to_bin_loop.simps)
next
  case (3 c1 c2 cs)
  show ?case
  proof (cases "is_hex c1 \<and> is_hex c2 \<and> pos < len")
    case False
    then have "hex_to_bin_loop (c1 # c2 # cs) buf len pos = Some (- 1, buf)"
      by (metis hex_loop_fail_first hex_loop_fail_second hex_loop_fail_full)
    then show ?thesis
      using False 3(3,4) by (auto simp del: hex_to_bin_loop.simps)
  next
    case True
    then have pb: "pos < length buf" using 3(3) by simp
    let ?b = "buf[pos := pair_val (c1 # c2 # cs) 0]"
    have st: "hex_to_bin_loop (c1 # c2 # cs) buf len pos = hex_to_bin_loop cs ?b len (Suc pos)"
      using True pb by (intro hex_loop_step) simp_all
    from 3(1) [of ?b "Suc pos"] 3(3) True
    obtain buf' where b: "hex_to_bin_loop cs ?b len (Suc pos) =
           Some (if even (length cs) \<and> list_all is_hex cs \<and> Suc pos + length cs div 2 \<le> len then 0 else - 1, buf')"
         "length buf' = length ?b"
         "\<forall>j. j < Suc pos \<or> len \<le> j \<longrightarrow> buf' ! j = ?b ! j"
         "even (length cs) \<and> list_all is_hex cs \<and> Suc pos + length cs div 2 \<le> len \<longrightarrow>
              (\<forall>i < length cs div 2. buf' ! (Suc pos + i) = pair_val cs i)
            \<and> (\<forall>j \<ge> Suc pos + length cs div 2. buf' ! j = ?b ! j)"
      by auto
    show ?thesis
    proof (intro exI [of _ buf'] conjI)
      show "hex_to_bin_loop (c1 # c2 # cs) buf len pos =
        Some (if even (length (c1 # c2 # cs)) \<and> list_all is_hex (c1 # c2 # cs) \<and>
           pos + length (c1 # c2 # cs) div 2 \<le> len then 0 else - 1, buf')"
        unfolding st b(1) using True by simp
      show "length buf' = length buf" using b(2) by simp
      show "\<forall>j. j < pos \<or> len \<le> j \<longrightarrow> buf' ! j = buf ! j"
        using b(3) True by auto
      show "even (length (c1 # c2 # cs)) \<and> list_all is_hex (c1 # c2 # cs) \<and>
           pos + length (c1 # c2 # cs) div 2 \<le> len \<longrightarrow>
           (\<forall>i < length (c1 # c2 # cs) div 2. buf' ! (pos + i) = pair_val (c1 # c2 # cs) i)
            \<and> (\<forall>j \<ge> pos + length (c1 # c2 # cs) div 2. buf' ! j = buf ! j)"
      proof (intro impI conjI allI)
        assume ok: "even (length (c1 # c2 # cs)) \<and> list_all is_hex (c1 # c2 # cs) \<and>
           pos + length (c1 # c2 # cs) div 2 \<le> len"
        then have ok': "even (length cs) \<and> list_all is_hex cs \<and> Suc pos + length cs div 2 \<le> len"
          by simp
        note r = b(4) [rule_format, OF ok']
        { fix i assume i: "i < length (c1 # c2 # cs) div 2"
          show "buf' ! (pos + i) = pair_val (c1 # c2 # cs) i"
          proof (cases i)
            case 0
            then show ?thesis using b(3) pb by simp
          next
            case (Suc k)
            then show ?thesis using r i by (simp add: pair_val_Suc)
          qed }
        { fix j assume "pos + length (c1 # c2 # cs) div 2 \<le> j"
          then show "buf' ! j = buf ! j" using r by simp }
      qed
    qed
  qed
qed


text \<open>
  Claim C10.  Given a buffer of at least \<open>len\<close> bytes, hex_to_bin never stores outside the
  buffer; it returns 0 exactly when the string has even length, consists of hexadecimal
  digits only and has at most \<open>len\<close> digit pairs, and -1 otherwise.  On success byte \<open>i\<close> of
  the buffer holds the value of the \<open>i\<close>-th digit pair and the remaining bytes are untouched;
  in particular strings with fewer than \<open>len\<close> pairs are accepted.  Bytes at positions
  \<open>len\<close> and beyond are never changed, whatever the outcome.
\<close>

theorem hex_to_bin_spec:
  assumes "len \<le> length buf"
  shows "\<exists>buf'. hex_to_bin hexstr buf len = Some (if hex_ok hexstr len then 0 else - 1, buf')
         \<and> length buf' = length buf
         \<and> (\<forall>j \<ge> len. buf' ! j = buf ! j)
         \<and> (hex_ok hexstr len \<longrightarrow>
              (\<forall>i < length hexstr div 2. buf' ! i = pair_val hexstr i)
            \<and> (\<forall>j \<ge> length hexstr div 2. buf' ! j = buf ! j))"
  using hex_to_bin_loop_general [OF assms, of 0 hexstr]
  unfolding hex_to_bin_def hex_ok_def by simp

theorem hex_to_bin_spec_witness:
  "(3::nat) \<le> length [0, 0, 0 :: byte] \<and> hex_ok ''0aFf'' 3 \<and>
   (\<exists>buf'. hex_to_bin ''0aFf'' [0, 0, 0] 3 = Some (0, buf') \<and> buf' ! 0 = 10 \<and> buf' ! 1 = 255
      \<and> buf' ! 2 = 0)"
proof -
  have l: "(3::nat) \<le> length [0, 0, 0 :: byte]" by simp
  have ok: "hex_ok ''0aFf'' 3" by (simp add: hex_ok_def is_hex_def hex_table_def)
  have p: "pair_val ''0aFf'' 0 = 10" "pair_val ''0aFf'' 1 = 255"
    by (simp_all add: pair_val_def hexval_def hex_table_def)
  from hex_to_bin_spec [OF l, of "''0aFf''"] ok p l show ?thesis
    by (auto simp del: hex_to_bin_loop.simps)
qed


section \<open>Properties of check_state and add_delta\<close>

text \<open>
  Signed values of the two word sizes, read through \<open>word_of_int\<close>.
\<close>

lemma sint_wi64:
  assumes "- (2 ^ 63) \<le> x" "x < 2 ^ 63"
  shows "sint (word_of_int x :: 64 word) = x"
  using assms by (simp add: signed_of_int signed_take_bit_int_eq_self)

lemma sint_wi32:
  assumes "- (2 ^ 31) \<le> x" "x < 2 ^ 31"
  shows "sint (word_of_int x :: 32 word) = x"
  using assms by (simp add: signed_of_int signed_take_bit_int_eq_self)

lemma ucast_wi: "(ucast (word_of_int x :: 64 word) :: 32 word) = word_of_int x"
  by (rule bit_word_eqI) (auto simp: bit_simps)

lemma sub_wi: "(a :: 64 word) - b = word_of_int (sint a - sint b)"
  by (simp only: wi_hom_sub [symmetric] of_int_sint scast_id)

lemma add_scast_wi: "(a :: 64 word) + scast (k :: 32 word) = word_of_int (sint a + sint k)"
  by (simp only: wi_hom_add [symmetric] of_int_sint scast_id)

lemma inc32: "(k :: 32 word) + 1 = word_of_int (sint k + 1)"
  by (simp only: wi_hom_add [symmetric] of_int_sint scast_id word_1_wi [symmetric])

lemma sint32_bounds: "- (2 ^ 31) \<le> sint (k :: 32 word)" "sint (k :: 32 word) < 2 ^ 31"
  using sint_ge [of k] sint_lt [of k] by simp_all

lemma sint64_bounds: "- (2 ^ 63) \<le> sint (k :: 64 word)" "sint (k :: 64 word) < 2 ^ 63"
  using sint_ge [of k] sint_lt [of k] by simp_all

lemma sint_inj: "sint (a :: 'a::len word) = sint b \<longleftrightarrow> a = b"
  by (metis of_int_sint scast_id)

lemma check_state_walk_counter:
  "check_state_walk cur k ds = Some k' \<Longrightarrow> k' = k + of_nat (length ds)"
  by (induction ds arbitrary: k) (force simp: Let_def ac_simps split: if_splits)+

lemma check_state_walk_iff:
  assumes "0 \<le> sint k" "sint k + int (length ds) < 2 ^ 31"
    and "0 \<le> sint cur" "sint cur + sint k + int (length ds) < 2 ^ 63"
  shows "check_state_walk cur k ds \<noteq> None \<longleftrightarrow>
         map (sint \<circ> d_serial) ds = [sint cur + sint k + 1 .. sint cur + sint k + int (length ds)]"
  using assms
proof (induction ds arbitrary: k)
  case Nil
  then show ?case by simp
next
  case (Cons d ds)
  let ?k1 = "k + 1"
  have k1: "sint ?k1 = sint k + 1"
    unfolding inc32 using Cons.prems by (intro sint_wi32) simp_all
  have "sint (word_of_int (sint cur + (sint k + 1)) :: 64 word) = sint cur + (sint k + 1)"
    using Cons.prems by (intro sint_wi64) simp_all
  then have tgt: "sint (cur + scast ?k1) = sint cur + sint k + 1"
    unfolding add_scast_wi k1 by simp
  have eq: "cur + scast ?k1 \<noteq> d_serial d \<longleftrightarrow> sint (d_serial d) \<noteq> sint cur + sint k + 1"
    using tgt sint_inj [of "cur + scast ?k1" "d_serial d"] by auto
  have IH: "check_state_walk cur ?k1 ds \<noteq> None \<longleftrightarrow>
         map (sint \<circ> d_serial) ds = [sint cur + sint ?k1 + 1 .. sint cur + sint ?k1 + int (length ds)]"
    using Cons.prems by (intro Cons.IH) (simp_all add: k1)
  have b1: "sint cur + sint ?k1 + 1 = sint cur + sint k + 2"
    and b2: "sint cur + sint ?k1 + int (length ds) = sint cur + sint k + 1 + int (length ds)"
    by (simp_all add: k1)
  have IH': "check_state_walk cur ?k1 ds \<noteq> None \<longleftrightarrow>
         map (sint \<circ> d_serial) ds = [sint cur + sint k + 2 .. sint cur + sint k + 1 + int (length ds)]"
    using IH unfolding b1 b2 .
  have up: "[sint cur + sint k + 1 .. sint cur + sint k + int (length (d # ds))] =
            (sint cur + sint k + 1) # [sint cur + sint k + 2 .. sint cur + sint k + 1 + int (length ds)]"
    by (subst upto_rec1) (simp_all add: algebra_simps)
  have L: "check_state_walk cur k (d # ds) \<noteq> None \<longleftrightarrow>
           sint (d_serial d) = sint cur + sint k + 1 \<and> check_state_walk cur ?k1 ds \<noteq> None"
    using eq by (simp add: Let_def)
  have R: "map (sint \<circ> d_serial) (d # ds) =
             [sint cur + sint k + 1 .. sint cur + sint k + int (length (d # ds))] \<longleftrightarrow>
           sint (d_serial d) = sint cur + sint k + 1 \<and>
           map (sint \<circ> d_serial) ds = [sint cur + sint k + 2 .. sint cur + sint k + 1 + int (length ds)]"
    unfolding up by simp
  show ?case using L R IH' by blast
qed


lemma of_nat_wi32: "(of_nat n :: 32 word) = word_of_int (int n)"
  by simp

text \<open>
  Where the difference of the serials fits an \<open>int\<close> and the queue has fewer than 2^31
  items (so that \<open>serial_counter\<close> does not overflow), and no earlier call has left the state
  at ERROR or NONE, check_state at the end of the notification computes the reference plan
  from the prior session id and serial, the notification's session id and serial, and the
  serials of the queue in queue order.
\<close>

lemma check_state_in_range:
  assumes st: "state nx = NOTIFICATION_STATE_SNAPSHOT \<or> state nx = NOTIFICATION_STATE_DELTAS"
    and sc: "scope nx = NOTIFICATION_SCOPE_END"
    and sid: "session_id nx = Some sid"
    and c0: "0 \<le> sint (current_serial nx)" and n1: "1 \<le> sint (serial nx)"
    and lo: "- (2 ^ 31) \<le> sint (serial nx) - sint (current_serial nx)"
    and hi: "sint (serial nx) - sint (current_serial nx) < 2 ^ 31"
    and len: "length (delta_q nx) < 2 ^ 31"
  shows "state (check_state nx) =
         plan_spec (current_session_id nx) (sint (current_serial nx)) sid (sint (serial nx))
           (map (sint \<circ> d_serial) (delta_q nx))"
proof -
  define c where "c = sint (current_serial nx)"
  define n where "n = sint (serial nx)"
  define D where "D = n - c"
  define q where "q = delta_q nx"
  define sd :: cint where "sd = ucast (serial nx - current_serial nx)"
  have sd: "sd = word_of_int D"
    unfolding sd_def sub_wi ucast_wi D_def n_def c_def ..
  have sint_sd: "sint sd = D"
    unfolding sd using lo hi by (intro sint_wi32) (simp_all add: D_def n_def c_def)
  have sd0: "sd = 0 \<longleftrightarrow> D = 0"
    using sint_sd sint_inj [of sd 0] by auto
  have sdneg: "sd <s 0 \<longleftrightarrow> D < 0"
    using sint_sd by (simp add: word_sless_alt)
  have cur0: "current_serial nx = 0 \<longleftrightarrow> c = 0"
    using sint_inj [of "current_serial nx" 0] by (auto simp: c_def)
  have ser0: "serial nx \<noteq> 0"
    using n1 by auto
  have nb: "n < 2 ^ 63" using sint64_bounds(2) [of "serial nx"] by (simp add: n_def)
  have walkD:
    "(case check_state_walk (current_serial nx) 0 q of
        None \<Rightarrow> NOTIFICATION_STATE_SNAPSHOT
      | Some k \<Rightarrow> if k \<noteq> sd then NOTIFICATION_STATE_SNAPSHOT else NOTIFICATION_STATE_DELTAS)
     = (if map (sint \<circ> d_serial) q = [c + 1 .. n] then NOTIFICATION_STATE_DELTAS
        else NOTIFICATION_STATE_SNAPSHOT)"
    if Dpos: "0 < D"
  proof (cases "int (length q) = D")
    case True
    have "check_state_walk (current_serial nx) 0 q \<noteq> None \<longleftrightarrow>
          map (sint \<circ> d_serial) q = [sint (current_serial nx) + sint (0 :: cint) + 1 ..
             sint (current_serial nx) + sint (0 :: cint) + int (length q)]"
      using c0 len nb True by (intro check_state_walk_iff) (simp_all add: D_def c_def n_def q_def)
    then have w: "check_state_walk (current_serial nx) 0 q \<noteq> None \<longleftrightarrow>
          map (sint \<circ> d_serial) q = [c + 1 .. n]"
      using True by (simp add: c_def D_def)
    show ?thesis
    proof (cases "check_state_walk (current_serial nx) 0 q")
      case None
      with w show ?thesis by simp
    next
      case (Some k)
      from check_state_walk_counter [OF Some] have "k = word_of_int (int (length q))" by simp
      with True sd have "k = sd" by simp
      with Some w show ?thesis by simp
    qed
  next
    case False
    have ne: "map (sint \<circ> d_serial) q \<noteq> [c + 1 .. n]"
    proof
      assume "map (sint \<circ> d_serial) q = [c + 1 .. n]"
      then have "length (map (sint \<circ> d_serial) q) = length [c + 1 .. n]" by simp
      then have "int (length q) = D" using Dpos by (simp add: D_def)
      with False show False by simp
    qed
    show ?thesis
    proof (cases "check_state_walk (current_serial nx) 0 q")
      case None
      with ne show ?thesis by simp
    next
      case (Some k)
      from check_state_walk_counter [OF Some] have k: "k = word_of_int (int (length q))" by simp
      have "sint k = int (length q)"
        unfolding k using len by (intro sint_wi32) (simp_all add: q_def)
      with sint_sd False have "k \<noteq> sd" by auto
      with Some ne show ?thesis by simp
    qed
  qed
  show ?thesis
  proof (cases "current_session_id nx = None \<or> c = 0")
    case True
    then show ?thesis using st cur0
      by (auto simp: check_state_def plan_spec_def c_def)
  next
    case f1: False
    show ?thesis
    proof (cases "current_session_id nx = Some sid")
      case False
      then show ?thesis using st f1 cur0 sid ser0
        by (auto simp: check_state_def plan_spec_def c_def)
    next
      case same: True
      consider "D = 0" | "D < 0" | "0 < D" by linarith
      then show ?thesis
      proof cases
        case 1
        then show ?thesis using st f1 cur0 sid ser0 same sd0
          by (auto simp: check_state_def plan_spec_def Let_def c_def n_def D_def sd_def)
      next
        case 2
        then show ?thesis using st f1 cur0 sid ser0 same sd0 sdneg
          by (auto simp: check_state_def plan_spec_def Let_def c_def n_def D_def sd_def)
      next
        case 3
        then have "\<not> D = 0" "\<not> D < 0" by simp_all
        then show ?thesis using st f1 cur0 sid ser0 same sd0 sdneg sc walkD [OF 3]
          by (auto simp: check_state_def plan_spec_def Let_def c_def n_def D_def sd_def q_def
                split: option.splits if_splits)
      qed
    qed
  qed
qed

text \<open>
  The scenarios of the specification for the plan, on whole documents: deltas 11 and 12 on
  top of serial 10 give DELTAS; a new session id gives SNAPSHOT; a gap (only delta 12) gives
  SNAPSHOT; a serial that went backwards gives ERROR; an unchanged serial gives NONE.
\<close>

lemma plan_scenarios:
  "state (notification_parse (notification_doc ''A'' ''12'' [''11'', ''12''])
      (prior_state (Some ''A'') 10)) = NOTIFICATION_STATE_DELTAS"
  "state (notification_parse (notification_doc ''B'' ''1'' [])
      (prior_state (Some ''A'') 10)) = NOTIFICATION_STATE_SNAPSHOT"
  "state (notification_parse (notification_doc ''A'' ''12'' [''12''])
      (prior_state (Some ''A'') 10)) = NOTIFICATION_STATE_SNAPSHOT"
  "state (notification_parse (notification_doc ''A'' ''9'' [])
      (prior_state (Some ''A'') 10)) = NOTIFICATION_STATE_ERROR"
  "state (notification_parse (notification_doc ''A'' ''10'' [])
      (prior_state (Some ''A'') 10)) = NOTIFICATION_STATE_NONE"
  by code_simp+

text \<open>
  What add_delta does: a serial smaller than every serial of the queue is put at the head; a
  serial that is not smaller than the last one is appended, equal or not; one smaller than
  the last but greater than the first is inserted right after the first element; one smaller
  than the last and equal to the first is reported as a duplicate.
\<close>

lemma add_delta_scan_all_greater:
  assumes "\<forall>n \<in> set q. ser <s d_serial n"
  shows "add_delta_scan ser q i = Some Null"
  using assms
proof (induction q arbitrary: i)
  case Nil
  then show ?case by simp
next
  case (Cons n q)
  then have "sint ser < sint (d_serial n)" by (simp add: word_sless_alt)
  then have "d_serial n \<noteq> ser" "\<not> d_serial n <s ser" by (auto simp: word_sless_alt)
  with Cons show ?case by simp
qed

lemma add_delta_before_all:
  assumes "\<forall>n \<in> set (delta_q nx). ser <s d_serial n"
  shows "add_delta nx u h ser =
         (1, nx\<lparr>delta_q := \<lparr>d_uri = u, d_hash = h, d_serial = ser\<rparr> # delta_q nx\<rparr>)"
proof (cases "delta_q nx = []")
  case True
  then show ?thesis by (simp add: add_delta_def Let_def)
next
  case False
  then have "ser <s d_serial (last (delta_q nx))" using assms by simp
  then show ?thesis
    using False add_delta_scan_all_greater [OF assms, of 0] by (simp add: add_delta_def Let_def)
qed

lemma add_delta_append:
  assumes "delta_q nx \<noteq> []" and "\<not> ser <s d_serial (last (delta_q nx))"
  shows "add_delta nx u h ser =
         (1, nx\<lparr>delta_q := delta_q nx @ [\<lparr>d_uri = u, d_hash = h, d_serial = ser\<rparr>]\<rparr>)"
proof -
  have "take (Suc (length (delta_q nx) - 1)) (delta_q nx) = delta_q nx"
    "drop (Suc (length (delta_q nx) - 1)) (delta_q nx) = []"
    using assms(1) by simp_all
  then show ?thesis using assms by (simp add: add_delta_def Let_def)
qed

lemma add_delta_after_head:
  assumes "delta_q nx = n # ns" and "ser <s d_serial (last (n # ns))" and "d_serial n <s ser"
  shows "add_delta nx u h ser =
         (1, nx\<lparr>delta_q := n # \<lparr>d_uri = u, d_hash = h, d_serial = ser\<rparr> # ns\<rparr>)"
proof -
  have "d_serial n \<noteq> ser" using assms(3) by (auto simp: word_sless_alt)
  then show ?thesis using assms by (simp add: add_delta_def Let_def)
qed

lemma add_delta_duplicate_of_head:
  assumes "delta_q nx = n # ns" and "ser <s d_serial (last (n # ns))" and "d_serial n = ser"
  shows "add_delta nx u h ser = (0, nx)"
  using assms by (simp add: add_delta_def Let_def)

section \<open>Plan computation on whole notification documents\<close>

text \<open>
  Claim C1, at an input where the code departs from it.  The prior state is session A at
  serial 1; the notification announces session A at serial 4294967298 and lists the one delta
  with serial 2.  The difference of the serials is 4294967297, so that one delta is not the
  whole chain and the reference plan is SNAPSHOT; but \<open>serial_diff\<close> is an \<open>int\<close> and
  holds 1, the count matches, and check_state decides DELTAS.
\<close>

theorem plan_deltas_on_truncated_diff:
  "state (notification_parse (notification_doc ''A'' ''4294967298'' [''2''])
            (prior_state (Some ''A'') 1)) = NOTIFICATION_STATE_DELTAS
   \<and> map d_serial (delta_q (notification_parse (notification_doc ''A'' ''4294967298'' [''2''])
            (prior_state (Some ''A'') 1))) = [2]
   \<and> plan_spec (Some ''A'') 1 ''A'' 4294967298 [2] = NOTIFICATION_STATE_SNAPSHOT"
proof -
  have "length [2::int] \<noteq> length [(2::int) .. 4294967298]"
    by (simp del: upto_rec_numeral)
  then have "[2::int] \<noteq> [2 .. 4294967298]"
    by metis
  then have a: "plan_spec (Some ''A'') 1 ''A'' 4294967298 [2] = NOTIFICATION_STATE_SNAPSHOT"
    by (simp add: plan_spec_def del: upto_rec_numeral)
  have b: "state (notification_parse (notification_doc ''A'' ''4294967298'' [''2''])
            (prior_state (Some ''A'') 1)) = NOTIFICATION_STATE_DELTAS"
    by code_simp
  have c: "map d_serial (delta_q (notification_parse (notification_doc ''A'' ''4294967298'' [''2''])
            (prior_state (Some ''A'') 1))) = [2]"
    by code_simp
  show ?thesis by (intro conjI a b c)
qed

text \<open>
  Claim C3, at an input where the code departs from it.  The prior state is session A at
  serial 4294967297 and the notification announces session A at serial 1, both within
  [1, 2^63 - 1].  The difference is negative and the plan should be ERROR; but the low 32
  bits of the difference are zero, \<open>serial_diff\<close> is 0, and check_state decides NONE.
\<close>

theorem plan_none_on_backwards_serial:
  "state (notification_parse (notification_doc ''A'' ''1'' [])
            (prior_state (Some ''A'') 4294967297)) = NOTIFICATION_STATE_NONE
   \<and> state (check_state ((prior_state (Some ''A'') 4294967297)
              \<lparr>session_id := Some ''A'', serial := 1\<rparr>)) = NOTIFICATION_STATE_NONE
   \<and> plan_spec (Some ''A'') 4294967297 ''A'' 1 [] = NOTIFICATION_STATE_ERROR"
proof -
  have c: "plan_spec (Some ''A'') 4294967297 ''A'' 1 [] = NOTIFICATION_STATE_ERROR"
    by (simp add: plan_spec_def del: upto_rec_numeral)
  have a: "state (notification_parse (notification_doc ''A'' ''1'' [])
            (prior_state (Some ''A'') 4294967297)) = NOTIFICATION_STATE_NONE"
    by code_simp
  have b: "state (check_state ((prior_state (Some ''A'') 4294967297)
              \<lparr>session_id := Some ''A'', serial := 1\<rparr>)) = NOTIFICATION_STATE_NONE"
    by code_simp
  show ?thesis by (intro conjI a b c)
qed

text \<open>
  Claim C4, at an input where the code departs from it.  With prior serial 10, a
  notification lists the delta with serial 11 twice.  When the second one arrives the queue
  holds the first as its last element, the serial is not smaller than the last one, the scan
  for duplicates is skipped and the element is appended: add_delta returns 1, the parser is
  not stopped and the queue holds serial 11 twice.  The same happens whenever the repeated
  serial is that of the last element of the queue.
\<close>

theorem duplicate_serial_accepted:
  "parser_stopped (notification_parse (notification_doc ''A'' ''11'' [''11'', ''11''])
      (prior_state (Some ''A'') 10)) = False
   \<and> map d_serial (delta_q (notification_parse (notification_doc ''A'' ''11'' [''11'', ''11''])
      (prior_state (Some ''A'') 10))) = [11, 11]
   \<and> fst (add_delta ((prior_state (Some ''A'') 10)
              \<lparr>delta_q := [\<lparr>d_uri = ''u'', d_hash = ''h'', d_serial = 11\<rparr>]\<rparr>) ''u'' ''h'' 11) = 1"
proof -
  have a: "parser_stopped (notification_parse (notification_doc ''A'' ''11'' [''11'', ''11''])
      (prior_state (Some ''A'') 10)) = False"
    by code_simp
  have b: "map d_serial (delta_q (notification_parse (notification_doc ''A'' ''11'' [''11'', ''11''])
      (prior_state (Some ''A'') 10))) = [11, 11]"
    by code_simp
  have c: "fst (add_delta ((prior_state (Some ''A'') 10)
              \<lparr>delta_q := [\<lparr>d_uri = ''u'', d_hash = ''h'', d_serial = 11\<rparr>]\<rparr>) ''u'' ''h'' 11) = 1"
    by code_simp
  show ?thesis by (intro conjI a b c)
qed

text \<open>
  Claim C9, at an input where the code departs from it.  With prior state session A at
  serial 10 and a notification for session A at serial 14, the four deltas 11, 12, 13, 14
  presented in this order give the queue 11, 12, 13, 14 and the plan DELTAS; presented in
  the order 11, 12, 14, 13 they give the queue 11, 13, 12, 14, which is not sorted, and the
  plan SNAPSHOT.
\<close>

theorem plan_depends_on_presentation_order:
  "map d_serial (delta_q (notification_parse
      (notification_doc ''A'' ''14'' [''11'', ''12'', ''13'', ''14'']) (prior_state (Some ''A'') 10)))
     = [11, 12, 13, 14]
   \<and> state (notification_parse
      (notification_doc ''A'' ''14'' [''11'', ''12'', ''13'', ''14'']) (prior_state (Some ''A'') 10))
     = NOTIFICATION_STATE_DELTAS
   \<and> map d_serial (delta_q (notification_parse
      (notification_doc ''A'' ''14'' [''11'', ''12'', ''14'', ''13'']) (prior_state (Some ''A'') 10)))
     = [11, 13, 12, 14]
   \<and> state (notification_parse
      (notification_doc ''A'' ''14'' [''11'', ''12'', ''14'', ''13'']) (prior_state (Some ''A'') 10))
     = NOTIFICATION_STATE_SNAPSHOT"
proof -
  have a: "map d_serial (delta_q (notification_parse
      (notification_doc ''A'' ''14'' [''11'', ''12'', ''13'', ''14'']) (prior_state (Some ''A'') 10)))
     = [11, 12, 13, 14]"
    by code_simp
  have b: "state (notification_parse
      (notification_doc ''A'' ''14'' [''11'', ''12'', ''13'', ''14'']) (prior_state (Some ''A'') 10))
     = NOTIFICATION_STATE_DELTAS"
    by code_simp
  have c: "map d_serial (delta_q (notification_parse
      (notification_doc ''A'' ''14'' [''11'', ''12'', ''14'', ''13'']) (prior_state (Some ''A'') 10)))
     = [11, 13, 12, 14]"
    by code_simp
  have d: "state (notification_parse
      (notification_doc ''A'' ''14'' [''11'', ''12'', ''14'', ''13'']) (prior_state (Some ''A'') 10))
     = NOTIFICATION_STATE_SNAPSHOT"
    by code_simp
  show ?thesis by (intro conjI a b c d)
qed

section \<open>Properties of the session engine\<close>

lemma rrdp_get_Some:
  "rrdp_get ss ident = Some i \<Longrightarrow> i < length ss \<and> r_id (ss ! i) = ident"
  by (induction ss arbitrary: i) (auto split: if_splits)

text \<open>
  rrdp_free is safe where no handler pointer dangles.  The sessions the worker builds and
  keeps satisfy \<open>handlers_ok\<close>: rrdp_new establishes it and every operation on a session
  that leaves the session alive preserves it.
\<close>

lemma rrdp_free_ok:
  assumes "nxml s \<noteq> Freed" "sxml s \<noteq> Freed" "dxml s \<noteq> Freed"
  shows "rrdp_free s = Inr ()"
  using assms by (cases "nxml s"; cases "sxml s"; cases "dxml s") (simp_all add: rrdp_free_def)

lemma rrdp_free_notification:
  assumes "handlers_ok s" "task s = NOTIFICATION"
  shows "rrdp_free s = Inr ()"
  using assms by (intro rrdp_free_ok) (auto simp: handlers_ok_def)

lemma handlers_ok_new: "handlers_ok (rrdp_new ident loc notify sess ser lm)"
  by (simp add: handlers_ok_def rrdp_new_def)

lemma handlers_ok_failed:
  assumes "rrdp_failed s = Inr (Some s', ms)" "handlers_ok s"
  shows "handlers_ok s'"
  using assms
  by (auto simp: rrdp_failed_def handlers_ok_def split: if_splits sum.splits)

lemma handlers_ok_finish:
  assumes "rrdp_finish e s = Inr (Some s', ms)" "handlers_ok s"
  shows "handlers_ok s'"
proof (cases "rrdp_finish e s = rrdp_failed s")
  case True
  with assms handlers_ok_failed show ?thesis by metis
next
  case False
  with assms show ?thesis
    by (auto simp: rrdp_finish_def rrdp_success_def handlers_ok_def Let_def
             split: if_splits sum.splits rrdp_task.splits)
qed

lemma handlers_ok_data:
  assumes "rrdp_data_handler sha256 s ev = Inr (Some s', ms)" "handlers_ok s"
  shows "handlers_ok s'"
proof (cases ev)
  case No_input
  with assms show ?thesis by (simp add: rrdp_data_handler_def)
next
  case Read_error
  with assms handlers_ok_failed show ?thesis by (auto simp: rrdp_data_handler_def)
next
  case Read_eof
  have h: "handlers_ok (s\<lparr>infd := - 1\<rparr>)" using assms(2) by (simp add: handlers_ok_def)
  show ?thesis
  proof (cases "task s \<noteq> NOTIFICATION \<and> hash s \<noteq> sha256 (ctx s)")
    case True
    with assms Read_eof have "rrdp_failed (s\<lparr>infd := - 1\<rparr>) = Inr (Some s', ms)"
      by (auto simp: rrdp_data_handler_def Let_def split: if_splits)
    from handlers_ok_failed [OF this h] show ?thesis .
  next
    case False
    with assms Read_eof show ?thesis
      by (auto simp: rrdp_data_handler_def Let_def handlers_ok_def split: if_splits)
  qed
next
  case (Read_data buf ok)
  with assms show ?thesis
    by (auto simp: rrdp_data_handler_def Let_def handlers_ok_def split: if_splits)
qed

lemma handlers_ok_commit:
  assumes "\<forall>s \<in> set (states w). handlers_ok s" "i < length (states w)"
    and "\<And>s'. fst r = Some s' \<Longrightarrow> handlers_ok s'"
  shows "\<forall>s \<in> set (states (commit w i r)). handlers_ok s"
proof (cases "fst r")
  case None
  then show ?thesis using assms(1)
    by (auto simp: commit_def dest: in_set_takeD in_set_dropD)
next
  case (Some s')
  then show ?thesis using assms
    by (auto simp: commit_def dest!: set_update_subset_insert [THEN subsetD])
qed

lemma handlers_ok_input:
  assumes "rrdp_input_handler NOTYET e w fd ident body = Inr w'"
    and "\<forall>s \<in> set (states w). handlers_ok s"
  shows "\<forall>s \<in> set (states w'). handlers_ok s"
proof (cases body)
  case (RRDP_START loc notify sess ser lm)
  with assms show ?thesis
    by (auto simp: rrdp_input_handler_def handlers_ok_new split: if_splits)
next
  case RRDP_HTTP_INI
  from assms(1) obtain i where i: "rrdp_get (states w) ident = Some i"
    unfolding RRDP_HTTP_INI by (auto simp: rrdp_input_handler_def split: if_splits option.splits)
  note l = rrdp_get_Some [OF i]
  then have ok: "handlers_ok (states w ! i)" using assms(2) by simp
  from assms(1) i have w': "w' = commit w i (Some ((states w ! i)\<lparr>infd := fd, r_state := PARSING\<rparr>), [])"
    unfolding RRDP_HTTP_INI by (auto simp: rrdp_input_handler_def Let_def split: if_splits)
  have h: "handlers_ok ((states w ! i)\<lparr>infd := fd, r_state := PARSING\<rparr>)"
    using ok by (simp add: handlers_ok_def)
  show ?thesis unfolding w'
  proof (rule handlers_ok_commit [OF assms(2)])
    show "i < length (states w)" using l by simp
  next
    fix s' assume "fst (Some ((states w ! i)\<lparr>infd := fd, r_state := PARSING\<rparr>), []) = Some s'"
    then show "handlers_ok s'" using h by simp
  qed
next
  case (RRDP_HTTP_FIN st lm)
  from assms(1) obtain i where i: "rrdp_get (states w) ident = Some i"
    unfolding RRDP_HTTP_FIN by (auto simp: rrdp_input_handler_def split: if_splits option.splits)
  note l = rrdp_get_Some [OF i]
  define s where "s = states w ! i"
  have ok: "handlers_ok s" using assms(2) l by (simp add: s_def)
  have ok': "handlers_ok (s\<lparr>status := st, r_state := DONE\<rparr>)" using ok by (simp add: handlers_ok_def)
  from assms(1) i obtain r where w': "w' = commit w i r"
    and r: "Inr r = rrdp_failed s \<or> r = (Some (s\<lparr>status := st, r_state := DONE\<rparr>), [])
            \<or> Inr r = rrdp_finish e (s\<lparr>status := st, r_state := DONE\<rparr>)"
    unfolding RRDP_HTTP_FIN
    by (auto simp: rrdp_input_handler_def Let_def s_def commit_outcome_def
             split: if_splits sum.splits)
  have "handlers_ok s'" if "fst r = Some s'" for s'
    using r that ok ok' handlers_ok_failed [of s s' "snd r"]
      handlers_ok_finish [of e "s\<lparr>status := st, r_state := DONE\<rparr>" s' "snd r"]
    by (cases r) auto
  then show ?thesis unfolding w' using handlers_ok_commit [OF assms(2)] l by blast
next
  case (RRDP_FILE st)
  from assms(1) obtain i where i: "rrdp_get (states w) ident = Some i"
    unfolding RRDP_FILE by (auto simp: rrdp_input_handler_def split: if_splits option.splits)
  note l = rrdp_get_Some [OF i]
  define s where "s = states w ! i"
  define s1 where "s1 = (if st = 0 then s\<lparr>file_failed := file_failed s + 1\<rparr> else s)"
  define s2 where "s2 = s1\<lparr>file_pending := file_pending s1 - 1\<rparr>"
  have ok: "handlers_ok s2" using assms(2) l by (simp add: s_def s1_def s2_def handlers_ok_def)
  from assms(1) i obtain r where w': "w' = commit w i r"
    and r: "r = (Some s2, []) \<or> Inr r = rrdp_finish e s2"
    unfolding RRDP_FILE
    by (auto simp: rrdp_input_handler_def Let_def s_def s1_def s2_def commit_outcome_def
             split: if_splits sum.splits)
  have "handlers_ok s'" if "fst r = Some s'" for s'
    using r that ok handlers_ok_finish [of e s2 s' "snd r"] by (cases r) auto
  then show ?thesis unfolding w' using handlers_ok_commit [OF assms(2)] l by blast
next
  case RRDP_OTHER
  with assms show ?thesis by (simp add: rrdp_input_handler_def)
qed

lemma handlers_ok_request:
  assumes "handlers_ok s"
  shows "handlers_ok (fst (rrdp_request notification_get_next i s))"
  using assms
  by (cases "task s")
     (simp_all add: rrdp_request_def handlers_ok_def Let_def split: prod.splits)

lemma handlers_ok_publish:
  assumes "handlers_ok s"
  shows "handlers_ok (fst (snd (publish_done base64_decode s pxml)))"
  using assms by (simp add: publish_done_def handlers_ok_def split: option.splits)

subsection \<open>File accounting\<close>

text \<open>
  Claim C2, at an input where the code departs from it.  A snapshot session has been parsed
  to its end and has one file event that the parent has not acknowledged (\<open>file_pending\<close>
  is 1).  The test of \<open>file_pending\<close> after RRDP_HTTP_FIN stands between \<open>#ifdef NOTYET\<close>
  and \<open>#endif\<close> and nothing defines NOTYET, so the RRDP_HTTP_FIN with status 200 runs the
  completion at once: the session is freed and SESSION and END with ok=1 are queued while the
  file is still outstanding.
\<close>

theorem success_with_file_pending:
  "file_pending (example_session 1 PARSED SNAPSHOT 1) = 1
   \<and> rrdp_input_handler False example_env
        \<lparr>states = [example_session 1 PARSED SNAPSHOT 1], msgq = []\<rparr> (- 1) 1 (RRDP_HTTP_FIN 200 None)
     = Inr \<lparr>states = [], msgq = [Msg_SESSION 1 (Some ''A'') 12 None, Msg_END 1 1]\<rparr>"
  by code_simp

text \<open>
  What the code between \<open>#ifdef NOTYET\<close> and \<open>#endif\<close> would give: with NOTYET defined, END
  with ok=1 is queued only by the RRDP_HTTP_FIN that finds \<open>file_pending\<close> zero or by the
  RRDP_FILE that brings it to zero; an RRDP_HTTP_FIN for a parsed session with files
  outstanding only records the status and moves the session to DONE; and the RRDP_FILE that
  brings the counter of a session in DONE to zero runs the completion.
\<close>

lemma rrdp_failed_no_success:
  "rrdp_failed s = Inr r \<Longrightarrow> Msg_END k 1 \<notin> set (snd r)"
  by (auto simp: rrdp_failed_def rrdp_done_def split: if_splits sum.splits)

lemma rrdp_finish_success_id:
  assumes "rrdp_finish e s = Inr r" "Msg_END k 1 \<in> set (snd r)"
  shows "k = r_id s"
proof (cases "rrdp_finish e s = rrdp_failed s")
  case True
  with assms rrdp_failed_no_success show ?thesis by metis
next
  case False
  with assms show ?thesis
    by (auto simp: rrdp_finish_def rrdp_success_def Let_def rrdp_done_def rrdp_state_send_def
           split: if_splits rrdp_task.splits sum.splits)
qed

lemma msgq_commit: "drop (length (msgq w)) (msgq (commit w i r)) = snd r"
  by (simp add: commit_def)

lemma commit_outcome_Inr:
  "commit_outcome w i x = Inr w' \<Longrightarrow> \<exists>r. x = Inr r \<and> w' = commit w i r"
  by (auto simp: commit_outcome_def split: sum.splits)

lemma success_needs_no_pending:
  assumes "rrdp_input_handler True e w fd ident body = Inr w'"
    and "Msg_END k 1 \<in> set (drop (length (msgq w)) (msgq w'))"
  shows "\<exists>i. rrdp_get (states w) ident = Some i \<and> k = ident \<and>
           (case body of RRDP_HTTP_FIN st lm \<Rightarrow> file_pending (states w ! i) = 0
                       | RRDP_FILE st \<Rightarrow> file_pending (states w ! i) - 1 = 0
                       | _ \<Rightarrow> False)"
proof (cases body)
  case (RRDP_START loc notify sess ser lm)
  with assms show ?thesis by (auto simp: rrdp_input_handler_def split: if_splits)
next
  case RRDP_HTTP_INI
  with assms show ?thesis
    by (auto simp: rrdp_input_handler_def Let_def msgq_commit split: if_splits option.splits)
next
  case (RRDP_HTTP_FIN st lm)
  from assms(1) obtain i where i: "rrdp_get (states w) ident = Some i"
    unfolding RRDP_HTTP_FIN by (auto simp: rrdp_input_handler_def split: if_splits option.splits)
  define s where "s = states w ! i"
  have id: "r_id s = ident" using rrdp_get_Some [OF i] by (simp add: s_def)
  let ?s = "s\<lparr>status := st, r_state := DONE\<rparr>"
  have "file_pending s = 0 \<and> k = ident"
  proof (cases "r_state s = ERROR")
    case True
    with assms(1) i have "commit_outcome w i (rrdp_failed s) = Inr w'"
      unfolding RRDP_HTTP_FIN by (auto simp: rrdp_input_handler_def Let_def s_def split: if_splits)
    from commit_outcome_Inr [OF this] obtain r where "rrdp_failed s = Inr r" "w' = commit w i r"
      by blast
    with assms(2) rrdp_failed_no_success [of s r k] show ?thesis by (simp add: msgq_commit)
  next
    case False
    with assms i have p: "r_state s = PARSED" and "fd = - 1"
      unfolding RRDP_HTTP_FIN by (auto simp: rrdp_input_handler_def Let_def s_def split: if_splits)
    show ?thesis
    proof (cases "file_pending s > 0")
      case True
      with assms i p False have "Msg_END k 1 \<in> set []"
        unfolding RRDP_HTTP_FIN
        by (auto simp: rrdp_input_handler_def Let_def s_def msgq_commit split: if_splits)
      then show ?thesis by simp
    next
      case nz: False
      with assms(1) i p False have "commit_outcome w i (rrdp_finish e ?s) = Inr w'"
        unfolding RRDP_HTTP_FIN
        by (auto simp: rrdp_input_handler_def Let_def s_def split: if_splits)
      from commit_outcome_Inr [OF this] obtain r where r: "rrdp_finish e ?s = Inr r" "w' = commit w i r"
        by blast
      with assms(2) have "Msg_END k 1 \<in> set (snd r)" by (simp add: msgq_commit)
      from rrdp_finish_success_id [OF r(1) this] id nz show ?thesis
        by (simp add: word_greater_zero_iff)
    qed
  qed
  then show ?thesis using i by (simp add: RRDP_HTTP_FIN s_def)
next
  case (RRDP_FILE st)
  from assms(1) obtain i where i: "rrdp_get (states w) ident = Some i"
    unfolding RRDP_FILE by (auto simp: rrdp_input_handler_def split: if_splits option.splits)
  define s where "s = states w ! i"
  have id: "r_id s = ident" using rrdp_get_Some [OF i] by (simp add: s_def)
  define s1 where "s1 = (if st = 0 then s\<lparr>file_failed := file_failed s + 1\<rparr> else s)"
  define s2 where "s2 = s1\<lparr>file_pending := file_pending s1 - 1\<rparr>"
  have fp: "file_pending s2 = file_pending s - 1" and id2: "r_id s2 = ident"
    using id by (simp_all add: s2_def s1_def)
  have r: "Inr w' = (if file_pending s2 = 0 \<and> r_state s2 = DONE then commit_outcome w i (rrdp_finish e s2)
                 else Inr (commit w i (Some s2, [])))"
    using assms(1) i unfolding RRDP_FILE
    by (auto simp: rrdp_input_handler_def Let_def s_def s1_def s2_def split: if_splits)
  have "file_pending s - 1 = 0 \<and> k = ident"
  proof (cases "file_pending s2 = 0 \<and> r_state s2 = DONE")
    case True
    with r have "commit_outcome w i (rrdp_finish e s2) = Inr w'" by simp
    from commit_outcome_Inr [OF this] obtain x where x: "rrdp_finish e s2 = Inr x" "w' = commit w i x"
      by blast
    with assms(2) have "Msg_END k 1 \<in> set (snd x)" by (simp add: msgq_commit)
    from rrdp_finish_success_id [OF x(1) this] True fp id2 show ?thesis by simp
  next
    case False
    with r assms(2) have "Msg_END k 1 \<in> set []" by (simp add: msgq_commit)
    then show ?thesis by simp
  qed
  then show ?thesis using i by (simp add: RRDP_FILE s_def)
next
  case RRDP_OTHER
  with assms show ?thesis by (simp add: rrdp_input_handler_def)
qed

lemma completion_deferred:
  assumes "rrdp_get (states w) ident = Some i"
    and "r_state (states w ! i) = PARSED" and "file_pending (states w ! i) > 0"
  shows "rrdp_input_handler True e w (- 1) ident (RRDP_HTTP_FIN st lm) =
         Inr (commit w i (Some ((states w ! i)\<lparr>status := st, r_state := DONE\<rparr>), []))"
  using assms by (simp add: rrdp_input_handler_def Let_def)

lemma completion_on_last_ack:
  assumes "rrdp_get (states w) ident = Some i"
    and "r_state (states w ! i) = DONE" and "file_pending (states w ! i) = 1"
  shows "rrdp_input_handler NOTYET e w fd ident (RRDP_FILE st) =
         commit_outcome w i (rrdp_finish e
           ((if st = 0 then (states w ! i)\<lparr>file_failed := file_failed (states w ! i) + 1\<rparr>
             else states w ! i)\<lparr>file_pending := 0\<rparr>))"
  using assms by (simp add: rrdp_input_handler_def Let_def)

subsection \<open>The failure fallback\<close>

text \<open>
  Claim C5, at an input where the code departs from it.  A session whose task is DELTA and
  whose delta handler is live fails: rrdp_failed frees \<open>s->dxml\<close>, installs a snapshot
  handler and sets task SNAPSHOT and phase REQ, but leaves \<open>s->dxml\<close> pointing to the freed
  handler.  When the snapshot attempt fails in turn, rrdp_failed takes its other branch,
  where rrdp_free passes \<open>s->dxml\<close> to free_delta_xml a second time, before rrdp_done is
  reached: the session is not freed in a defined way and no END with ok=0 is sent.
\<close>

theorem fallback_then_failure_double_free:
  "rrdp_failed (example_session 3 PARSING DELTA 0\<lparr>dxml := Allocated\<rparr>)
     = Inr (Some (example_session 3 REQ SNAPSHOT 0\<lparr>dxml := Freed, sxml := Allocated\<rparr>), [])
   \<and> rrdp_failed (example_session 3 REQ SNAPSHOT 0\<lparr>dxml := Freed, sxml := Allocated\<rparr>)
     = Inl Double_free"
  by code_simp

text \<open>
  rrdp_failed in general: the fallback for a DELTA session whose handler pointer is not
  dangling, the end of a session of another task with no dangling pointer, and the double
  free where \<open>dxml\<close> dangles.
\<close>

lemma rrdp_failed_delta:
  assumes "task s = DELTA" "dxml s \<noteq> Freed"
  shows "rrdp_failed s = Inr (Some (s\<lparr>dxml := (if dxml s = Allocated then Freed else NullPtr),
            sxml := Allocated, task := SNAPSHOT, r_state := REQ\<rparr>), [])"
  using assms by (cases "dxml s") (simp_all add: rrdp_failed_def)

lemma rrdp_failed_other:
  assumes "task s \<noteq> DELTA" "nxml s \<noteq> Freed" "sxml s \<noteq> Freed" "dxml s \<noteq> Freed"
  shows "rrdp_failed s = Inr (None, [Msg_END (r_id s) 0])"
  using assms rrdp_free_ok [of s] by (simp add: rrdp_failed_def rrdp_done_def)

lemma rrdp_failed_dangling:
  assumes "task s \<noteq> DELTA" "nxml s \<noteq> Freed" "sxml s \<noteq> Freed" "dxml s = Freed"
  shows "rrdp_failed s = Inl Double_free"
  using assms by (cases "nxml s"; cases "sxml s") (simp_all add: rrdp_failed_def rrdp_free_def)

text \<open>
  The fallback and the message that follows it.  RRDP_HTTP_FIN is fatal for a session in any
  phase but ERROR and PARSED; so after a digest mismatch at the end of a delta's stream has
  put the session back to REQ, the RRDP_HTTP_FIN of that delta ends the worker.
\<close>

lemma http_fin_in_other_phase_is_fatal:
  assumes "rrdp_get (states w) ident = Some i"
    and "r_state (states w ! i) \<noteq> ERROR" "r_state (states w ! i) \<noteq> PARSED"
  shows "rrdp_input_handler NOTYET e w (- 1) ident (RRDP_HTTP_FIN st lm) =
         Inl (Errx ''bad internal state'')"
  using assms by (simp add: rrdp_input_handler_def Let_def)

lemma fin_after_digest_fallback_is_fatal:
  "rrdp_read_stream (\<lambda>bs. bs)
      (example_session 3 PARSING DELTA 0\<lparr>dxml := Allocated, hash := [1, 2, 3]\<rparr>)
      [Read_data [1, 2] True, Read_data [4] True, Read_eof]
     = Inr (Some (example_session 3 REQ SNAPSHOT 0
              \<lparr>dxml := Freed, sxml := Allocated, hash := [1, 2, 3], ctx := [1, 2, 4]\<rparr>), [])"
  "rrdp_input_handler False example_env
      \<lparr>states = [example_session 3 REQ SNAPSHOT 0
              \<lparr>dxml := Freed, sxml := Allocated, hash := [1, 2, 3], ctx := [1, 2, 4]\<rparr>], msgq = []\<rparr>
      (- 1) 3 (RRDP_HTTP_FIN 200 None) = Inl (Errx ''bad internal state'')"
  by code_simp+

subsection \<open>Not modified\<close>

text \<open>
  Claim C7, as the code has it.  Let RRDP_HTTP_FIN with status 304 arrive for a session
  whose task is NOTIFICATION.  If the session is in phase PARSED (its stream has been read to
  the end without a parse error), the worker frees it and queues the single message END with
  ok=1, no FILE and no SESSION message; with NOTYET defined and files outstanding it would
  instead wait in DONE.  If the session is in phase ERROR, the worker frees it and queues END
  with ok=0.  In any other phase, as when the message arrives before the end of the stream
  has been read, the worker exits through errx.  The session's handler pointers are as the
  worker leaves them for a notification: none dangling.
\<close>

theorem http_fin_304_notification:
  assumes "rrdp_get (states w) ident = Some i"
    and "task (states w ! i) = NOTIFICATION" and "handlers_ok (states w ! i)"
  shows "rrdp_input_handler NOTYET e w (- 1) ident (RRDP_HTTP_FIN 304 lm) =
     (if r_state (states w ! i) = PARSED then
        (if NOTYET \<and> file_pending (states w ! i) > 0 then
           Inr (commit w i (Some ((states w ! i)\<lparr>status := 304, r_state := DONE\<rparr>), []))
         else Inr \<lparr>states = take i (states w) @ drop (Suc i) (states w),
                   msgq = msgq w @ [Msg_END ident 1]\<rparr>)
      else if r_state (states w ! i) = ERROR then
        Inr \<lparr>states = take i (states w) @ drop (Suc i) (states w),
             msgq = msgq w @ [Msg_END ident 0]\<rparr>
      else Inl (Errx ''bad internal state''))"
proof -
  define s where "s = states w ! i"
  have id: "r_id s = ident" using rrdp_get_Some [OF assms(1)] by (simp add: s_def)
  have fr: "rrdp_free s = Inr ()"
    using assms by (intro rrdp_free_notification) (simp_all add: s_def)
  have fr': "rrdp_free (s\<lparr>status := 304, r_state := DONE\<rparr>) = Inr ()"
    using assms by (intro rrdp_free_notification) (simp_all add: s_def handlers_ok_def)
  have fail: "rrdp_failed s = Inr (None, [Msg_END ident 0])"
    using assms(2) fr id by (simp add: rrdp_failed_def rrdp_done_def s_def)
  have fin: "rrdp_finish e (s\<lparr>status := 304, r_state := DONE\<rparr>) = Inr (None, [Msg_END ident 1])"
    using assms(2) fr' id by (simp add: rrdp_finish_def rrdp_done_def s_def)
  show ?thesis
    using assms(1) fail fin unfolding s_def
    by (simp add: rrdp_input_handler_def Let_def commit_outcome_def commit_def)
qed

theorem http_fin_304_notification_witness:
  "rrdp_get [example_session 5 WAITING SNAPSHOT 2, example_session 6 PARSED NOTIFICATION 0] 6 = Some 1
   \<and> rrdp_input_handler False example_env
        \<lparr>states = [example_session 5 WAITING SNAPSHOT 2, example_session 6 PARSED NOTIFICATION 0],
         msgq = [Msg_FILE 5 PUB_ADD None (Some ''rsync://rpki.example/a.cer'') []]\<rparr>
        (- 1) 6 (RRDP_HTTP_FIN 304 (Some ''Mon, 01 Jan 2024 00:00:00 GMT''))
     = Inr \<lparr>states = [example_session 5 WAITING SNAPSHOT 2],
            msgq = [Msg_FILE 5 PUB_ADD None (Some ''rsync://rpki.example/a.cer'') [], Msg_END 6 1]\<rparr>"
proof -
  let ?w = "\<lparr>states = [example_session 5 WAITING SNAPSHOT 2, example_session 6 PARSED NOTIFICATION 0],
         msgq = [Msg_FILE 5 PUB_ADD None (Some ''rsync://rpki.example/a.cer'') []]\<rparr>"
  have g: "rrdp_get (states ?w) 6 = Some 1" by (simp add: example_session_def rrdp_new_def)
  have p: "task (states ?w ! 1) = NOTIFICATION" "handlers_ok (states ?w ! 1)"
    "r_state (states ?w ! 1) = PARSED"
    by (simp_all add: example_session_def rrdp_new_def handlers_ok_def)
  from http_fin_304_notification [OF g p(1,2), of False example_env
      "Some ''Mon, 01 Jan 2024 00:00:00 GMT''"] g p(3)
  show ?thesis by simp
qed

text \<open>
  The claim as stated fails on sessions that are not in phase PARSED: after a parse error
  the RRDP_HTTP_FIN with status 304 is answered by END with ok=0, and before the end of the
  stream has been read it ends the worker.
\<close>

theorem http_fin_304_before_eof_or_after_error:
  "rrdp_input_handler False example_env
      \<lparr>states = [example_session 6 ERROR NOTIFICATION 0], msgq = []\<rparr> (- 1) 6
      (RRDP_HTTP_FIN 304 None)
     = Inr \<lparr>states = [], msgq = [Msg_END 6 0]\<rparr>
   \<and> rrdp_input_handler False example_env
      \<lparr>states = [example_session 6 PARSING NOTIFICATION 0], msgq = []\<rparr> (- 1) 6
      (RRDP_HTTP_FIN 304 None)
     = Inl (Errx ''bad internal state'')"
  by code_simp

subsection \<open>Acknowledgements for unknown sessions\<close>

text \<open>
  Claim C8, as the code has it.  An RRDP_FILE acknowledgement whose id matches no live
  session is fatal: rrdp_get returns NULL and the worker leaves through errx, so that no
  other session is serviced any more.
\<close>

theorem unknown_file_ack_is_fatal:
  assumes "rrdp_get (states w) ident = None"
  shows "rrdp_input_handler NOTYET e w fd ident (RRDP_FILE st) =
         Inl (Errx ''rrdp session does not exist'')"
  using assms by (simp add: rrdp_input_handler_def)

theorem unknown_file_ack_is_fatal_witness:
  "rrdp_get [example_session 1 PARSING SNAPSHOT 3] 2 = None
   \<and> rrdp_input_handler False example_env
        \<lparr>states = [example_session 1 PARSING SNAPSHOT 3], msgq = []\<rparr> (- 1) 2 (RRDP_FILE 1)
     = Inl (Errx ''rrdp session does not exist'')"
proof -
  let ?w = "\<lparr>states = [example_session 1 PARSING SNAPSHOT 3], msgq = []\<rparr>"
  have g: "rrdp_get (states ?w) 2 = None" by (simp add: example_session_def rrdp_new_def)
  from unknown_file_ack_is_fatal [OF g, of False example_env "- 1" 1] g show ?thesis by simp
qed

theorem unknown_file_ack_not_tolerated:
  "rrdp_input_handler False example_env \<lparr>states = [], msgq = []\<rparr> (- 1) 7 (RRDP_FILE 1)
     = Inl (Errx ''rrdp session does not exist'')"
  by (simp add: rrdp_input_handler_def)

section \<open>Hash discipline of the read loop\<close>

lemma data_step:
  assumes "r_state s = PARSING \<or> r_state s = ERROR"
  shows "rrdp_data_handler sha256 s (Read_data buf ok) =
     Inr (Some (s\<lparr>ctx := (if task s = NOTIFICATION then ctx s else ctx s @ buf),
                 r_state := (if r_state s = PARSING \<and> ok then PARSING else ERROR)\<rparr>), [])"
  using assms by (auto simp: rrdp_data_handler_def Let_def)

lemma eof_step:
  assumes "r_state s = PARSING \<or> r_state s = ERROR"
  shows "rrdp_data_handler sha256 s Read_eof =
     (if task s \<noteq> NOTIFICATION \<and> hash s \<noteq> sha256 (ctx s) then rrdp_failed (s\<lparr>infd := - 1\<rparr>)
      else Inr (Some (s\<lparr>infd := - 1, r_state := (if r_state s = PARSING then PARSED else ERROR)\<rparr>), []))"
  using assms by (auto simp: rrdp_data_handler_def Let_def)

lemma r_state_same: "r_state s = v \<Longrightarrow> s\<lparr>r_state := v\<rparr> = s"
proof -
  assume "r_state s = v"
  moreover have "s\<lparr>r_state := r_state s\<rparr> = s" by simp
  ultimately show ?thesis by simp
qed

lemma stream_single: "rrdp_read_stream sha256 s [ev] = rrdp_data_handler sha256 s ev"
  by (simp split: sum.splits prod.splits option.splits)

text \<open>
  In any phase other than PARSING and ERROR, data or the end of the stream make the worker
  exit through errx before anything is hashed.
\<close>

lemma read_in_other_phase_is_fatal:
  assumes "r_state s \<noteq> PARSING" and "r_state s \<noteq> ERROR"
  shows "rrdp_data_handler sha256 s (Read_data buf ok) = Inl (Errx ''bad parser state'')"
    and "rrdp_data_handler sha256 s Read_eof = Inl (Errx ''bad parser state'')"
  using assms by (simp_all add: rrdp_data_handler_def)

lemma rrdp_read_stream_eof:
  assumes "r_state s = PARSING \<or> r_state s = ERROR"
  shows "rrdp_read_stream sha256 s (map (\<lambda>(buf, ok). Read_data buf ok) chunks @ [Read_eof]) =
     (let s' = s\<lparr>ctx := (if task s = NOTIFICATION then ctx s else ctx s @ concat (map fst chunks)),
                 r_state := (if r_state s = PARSING \<and> list_all snd chunks then PARSING else ERROR)\<rparr>
      in if task s \<noteq> NOTIFICATION \<and> hash s \<noteq> sha256 (ctx s') then rrdp_failed (s'\<lparr>infd := - 1\<rparr>)
         else Inr (Some (s'\<lparr>infd := - 1, r_state := (if r_state s' = PARSING then PARSED else ERROR)\<rparr>), []))"
  using assms
proof (induction chunks arbitrary: s)
  case Nil
  then show ?case
    by (auto simp: stream_single eof_step Let_def r_state_same simp del: rrdp_read_stream.simps)
next
  case (Cons c chunks)
  obtain buf ok where c: "c = (buf, ok)" by (cases c)
  let ?s = "s\<lparr>ctx := (if task s = NOTIFICATION then ctx s else ctx s @ buf),
                 r_state := (if r_state s = PARSING \<and> ok then PARSING else ERROR)\<rparr>"
  have st: "r_state ?s = PARSING \<or> r_state ?s = ERROR" by simp
  show ?case
    unfolding c using Cons.prems
    by (simp add: data_step Cons.IH [OF st] Let_def split: sum.splits prod.splits option.splits)
qed

text \<open>
  With the request that precedes the stream: a session in phase REQ with task SNAPSHOT or
  DELTA that is given a poll slot gets its expected digest from notification_get_next and a fresh hash context, so
  that what is compared at the end of the stream is the digest of the body, nothing more and
  nothing less.
\<close>

lemma hash_of_body_checked:
  assumes "r_state s = REQ" and "task s \<noteq> NOTIFICATION" and "i \<le> MAX_SESSIONS"
    and "notification_get_next (task s) = (uri, h)"
  shows "rrdp_read_stream sha256
           ((fst (rrdp_request notification_get_next i s))\<lparr>infd := fd, r_state := PARSING\<rparr>)
           (map (\<lambda>(buf, ok). Read_data buf ok) chunks @ [Read_eof]) =
         (let s' = s\<lparr>hash := h, ctx := concat (map fst chunks),
                      r_state := (if list_all snd chunks then PARSING else ERROR), infd := - 1\<rparr>
          in if h \<noteq> sha256 (concat (map fst chunks)) then rrdp_failed s'
             else Inr (Some (s'\<lparr>r_state := (if list_all snd chunks then PARSED else ERROR)\<rparr>), []))"
proof -
  let ?s1 = "(fst (rrdp_request notification_get_next i s))\<lparr>infd := fd, r_state := PARSING\<rparr>"
  have s1: "?s1 = s\<lparr>hash := h, ctx := [], r_state := PARSING, infd := fd\<rparr>"
    using assms by (cases "task s") (simp_all add: rrdp_request_def)
  have p: "r_state ?s1 = PARSING \<or> r_state ?s1 = ERROR" by simp
  show ?thesis
    unfolding rrdp_read_stream_eof [OF p] unfolding s1 using assms(2)
    by (simp add: Let_def)
qed



end
